theory Spec2Isabelle
  imports Complex_Main
begin

section \<open>Python values\<close>

text \<open>
  The script \<^verbatim>\<open>src/model/model.py\<close> reads floats from two places: the properties of an
  OpenCV capture and the entries of the detector's tensors (box coordinates, confidences,
  class indices). These are finite floats: a float is kept here by its exact value, a
  rational, with the negative zero apart; infinities and NaN are not modelled.
  \<^verbatim>\<open>int(x)\<close> truncates towards zero. The one exception that the script's own expressions
  raise is the \<^verbatim>\<open>KeyError\<close> of a dictionary lookup; a raise is the left injection of a sum.
\<close>

datatype pyfloat = Finite rat | NegZero

datatype py_error = KeyError int

type_synonym 'a py = "py_error + 'a"

definition py_int :: "pyfloat \<Rightarrow> int" where
  "py_int x =
     (case x of
        Finite q \<Rightarrow> (if 0 \<le> q then \<lfloor>q\<rfloor> else \<lceil>q\<rceil>)
      | NegZero \<Rightarrow> 0)"

definition dict_lookup :: "(int \<rightharpoonup> 'v) \<Rightarrow> int \<Rightarrow> 'v py" where
  "dict_lookup d k = (case d k of None \<Rightarrow> Inl (KeyError k) | Some v \<Rightarrow> Inr v)"

subsection \<open>Formatting\<close>

definition digit_char :: "nat \<Rightarrow> char" where
  "digit_char d = char_of (48 + d)"

function show_nat :: "nat \<Rightarrow> string" where
  "show_nat n = (if n < 10 then [digit_char n] else show_nat (n div 10) @ [digit_char (n mod 10)])"
  by pat_completeness auto
termination
  by (relation "measure id") auto

declare show_nat.simps [simp del]

definition show_int :: "int \<Rightarrow> string" where
  \<comment> \<open>\<^verbatim>\<open>str(i)\<close>, which an f-string applies to an \<^verbatim>\<open>int\<close> field\<close>
  "show_int i = (if i < 0 then ''-'' @ show_nat (nat (- i)) else show_nat (nat i))"

definition round_half_even :: "rat \<Rightarrow> int" where
  "round_half_even q =
     (let f = \<lfloor>q\<rfloor>; r = q - of_int f
      in if r < 1 / 2 then f
         else if 1 / 2 < r then f + 1
         else if even f then f else f + 1)"

definition format_2f :: "pyfloat \<Rightarrow> string" where
  \<comment> \<open>the format specification \<^verbatim>\<open>.2f\<close>: two decimals, the exact value rounded half to even\<close>
  "format_2f x =
     (case x of
        Finite q \<Rightarrow>
          (let n = nat (round_half_even (\<bar>q\<bar> * 100))
           in (if q < 0 then ''-'' else '''') @ show_nat (n div 100) @ ''.''
                @ [digit_char (n mod 100 div 10), digit_char (n mod 10)])
      | NegZero \<Rightarrow> ''-0.00'')"

subsection \<open>Strings and paths\<close>

text \<open>
  A string is kept as the bytes of its UTF-8 encoding. The script looks in a name only for
  the characters of the four extensions, the dot and the slash; these are ASCII, and in
  UTF-8 their bytes occur nowhere but as these characters, so that \<^verbatim>\<open>endswith\<close> and the path
  functions behave on the bytes as on the characters. The path functions are those of
  \<^verbatim>\<open>posixpath\<close>.

  \<^verbatim>\<open>str.lower\<close> follows the case tables of the Unicode database, which are no part of the
  sources: the batch driver takes it as a parameter \<open>str_lower\<close>, and what is proved of the
  driver holds whatever these tables are. On a string of ASCII characters \<^verbatim>\<open>str.lower\<close> is
  \<open>ascii_lower\<close>; the scenarios, whose names are ASCII, run with it.
\<close>

definition ascii_lower_char :: "char \<Rightarrow> char" where
  "ascii_lower_char c =
     (let n = (of_char c :: nat) in if 65 \<le> n \<and> n \<le> 90 then char_of (n + 32) else c)"

definition ascii_lower :: "string \<Rightarrow> string" where
  \<comment> \<open>\<^verbatim>\<open>s.lower()\<close> for a string \<^verbatim>\<open>s\<close> of ASCII characters\<close>
  "ascii_lower s = map ascii_lower_char s"

definition endswith :: "string \<Rightarrow> string \<Rightarrow> bool" where
  "endswith s e = (length e \<le> length s \<and> drop (length s - length e) s = e)"

definition endswith_any :: "string \<Rightarrow> string list \<Rightarrow> bool" where
  \<comment> \<open>\<^verbatim>\<open>s.endswith(t)\<close> for a tuple \<^verbatim>\<open>t\<close>\<close>
  "endswith_any s es = list_ex (endswith s) es"

definition rfind :: "string \<Rightarrow> char \<Rightarrow> int" where
  \<comment> \<open>the index of the last occurrence, or \<open>-1\<close>\<close>
  "rfind p c =
     (if c \<in> set p then int (length p) - 1 - int (length (takeWhile (\<lambda>x. x \<noteq> c) (rev p)))
      else - 1)"

function skip_leading_dots :: "string \<Rightarrow> nat \<Rightarrow> nat \<Rightarrow> bool" where
  \<comment> \<open>the \<^verbatim>\<open>while\<close> of \<^verbatim>\<open>genericpath._splitext\<close>: is there a character other than the dot
      in \<open>p[filenameIndex:dotIndex]\<close>\<close>
  "skip_leading_dots p filenameIndex dotIndex =
     (if filenameIndex < dotIndex then
        (if take 1 (drop filenameIndex p) \<noteq> ''.'' then True
         else skip_leading_dots p (filenameIndex + 1) dotIndex)
      else False)"
  by pat_completeness auto
termination
  by (relation "measure (\<lambda>(p, filenameIndex, dotIndex). dotIndex - filenameIndex)") auto

declare skip_leading_dots.simps [simp del]

definition splitext :: "string \<Rightarrow> string \<times> string" where
  "splitext p =
     (let sepIndex = rfind p CHR ''/'';
          dotIndex = rfind p CHR ''.''
      in if sepIndex < dotIndex \<and> skip_leading_dots p (nat (sepIndex + 1)) (nat dotIndex)
         then (take (nat dotIndex) p, drop (nat dotIndex) p)
         else (p, []))"

definition path_join :: "string \<Rightarrow> string \<Rightarrow> string" where
  "path_join a b =
     (if take 1 b = ''/'' then b
      else if a = [] \<or> endswith a ''/'' then a @ b
      else a @ ''/'' @ b)"

section \<open>Frames and drawing\<close>

text \<open>
  A frame is its raster as the source decoded it, together with the drawing calls made on
  it since, in call order. \<^verbatim>\<open>cv2.rectangle\<close> and \<^verbatim>\<open>cv2.putText\<close> change the frame in place;
  here they return the frame with the call appended.
\<close>

type_synonym point = "int \<times> int"
type_synonym colour = "int \<times> int \<times> int"

datatype draw_call =
    Rectangle point point colour int
  | PutText string point int rat colour int

record 'px frame =
  pixels :: 'px
  drawn :: "draw_call list"

definition cv2_rectangle :: "'px frame \<Rightarrow> point \<Rightarrow> point \<Rightarrow> colour \<Rightarrow> int \<Rightarrow> 'px frame" where
  "cv2_rectangle img pt1 pt2 color thickness =
     img\<lparr>drawn := drawn img @ [Rectangle pt1 pt2 color thickness]\<rparr>"

definition cv2_putText ::
  "'px frame \<Rightarrow> string \<Rightarrow> point \<Rightarrow> int \<Rightarrow> rat \<Rightarrow> colour \<Rightarrow> int \<Rightarrow> 'px frame" where
  "cv2_putText img txt org fontFace fontScale color thickness =
     img\<lparr>drawn := drawn img @ [PutText txt org fontFace fontScale color thickness]\<rparr>"

definition FONT_HERSHEY_SIMPLEX :: int where
  "FONT_HERSHEY_SIMPLEX = 0"

section \<open>The video source and the video sink\<close>

text \<open>
  OpenCV is outside the script; it is modelled by what its documentation promises. A path
  that \<^verbatim>\<open>cv2.VideoCapture\<close> can open holds four properties and finitely many frames, and
  \<^verbatim>\<open>read\<close> hands them out in order until none is left. What the capture reads is fixed
  when it is opened: the paths that can be opened (\<open>sources\<close>) are kept apart from the
  files that the writers make, so a run that writes over a file it is reading is not
  covered.
\<close>

record 'px video_file =
  vf_fps :: pyfloat
  vf_width :: pyfloat
  vf_height :: pyfloat
  vf_frame_count :: pyfloat
  vf_frames :: "'px frame list"

record 'px VideoCapture =
  cap_isOpened :: bool
  cap_fps :: pyfloat
  cap_width :: pyfloat
  cap_height :: pyfloat
  cap_frame_count :: pyfloat
  cap_frames :: "'px frame list"

definition VideoCapture :: "(string \<rightharpoonup> 'px video_file) \<Rightarrow> string \<Rightarrow> 'px VideoCapture" where
  "VideoCapture sources video_path =
     (case sources video_path of
        None \<Rightarrow>
          \<lparr>cap_isOpened = False, cap_fps = Finite 0, cap_width = Finite 0,
           cap_height = Finite 0, cap_frame_count = Finite 0, cap_frames = []\<rparr>
      | Some v \<Rightarrow>
          \<lparr>cap_isOpened = True, cap_fps = vf_fps v, cap_width = vf_width v,
           cap_height = vf_height v, cap_frame_count = vf_frame_count v,
           cap_frames = vf_frames v\<rparr>)"

definition cap_read :: "'px VideoCapture \<Rightarrow> ('px frame \<times> 'px VideoCapture) option" where
  \<comment> \<open>\<^verbatim>\<open>ret, frame = cap.read()\<close>: \<open>None\<close> is \<^verbatim>\<open>ret == False\<close>\<close>
  "cap_read cap =
     (if cap_isOpened cap then
        (case cap_frames cap of
           [] \<Rightarrow> None
         | frame # rest \<Rightarrow> Some (frame, cap\<lparr>cap_frames := rest\<rparr>))
      else None)"

definition cap_release :: "'px VideoCapture \<Rightarrow> 'px VideoCapture" where
  "cap_release cap = cap\<lparr>cap_isOpened := False, cap_frames := []\<rparr>"

text \<open>
  The state outside the function: the files that video writers have created, each with
  the frames written to it so far, and the lines printed. A writer opens whenever it is
  made, and \<^verbatim>\<open>write\<close> appends the frame to its file. The field \<open>invoked\<close> is a record of
  the calls of \<open>process_video\<close> made by the batch driver, kept for the statements about
  the driver; no part of the script reads it.
\<close>

record 'px out_file =
  of_fourcc :: string
  of_fps :: pyfloat
  of_size :: "int \<times> int"
  of_frames :: "'px frame list"

record 'px world =
  files :: "string \<rightharpoonup> 'px out_file"
  stdout :: "string list"
  invoked :: "(string \<times> string) list"

record VideoWriter =
  vw_path :: string
  vw_isOpened :: bool

definition py_print :: "string \<Rightarrow> 'px world \<Rightarrow> 'px world" where
  "py_print s w = w\<lparr>stdout := stdout w @ [s]\<rparr>"

definition VideoWriter ::
  "string \<Rightarrow> string \<Rightarrow> pyfloat \<Rightarrow> int \<times> int \<Rightarrow> 'px world \<Rightarrow> VideoWriter \<times> 'px world" where
  \<comment> \<open>opening the sink creates the file, or empties the one that is there\<close>
  "VideoWriter filename fourcc fps frameSize w =
     (\<lparr>vw_path = filename, vw_isOpened = True\<rparr>,
      w\<lparr>files := (files w)(filename \<mapsto>
           \<lparr>of_fourcc = fourcc, of_fps = fps, of_size = frameSize, of_frames = []\<rparr>)\<rparr>)"

definition vw_write :: "VideoWriter \<Rightarrow> 'px frame \<Rightarrow> 'px world \<Rightarrow> 'px world" where
  "vw_write out frame w =
     (if vw_isOpened out then
        (case files w (vw_path out) of
           None \<Rightarrow> w
         | Some f \<Rightarrow> w\<lparr>files := (files w)(vw_path out \<mapsto> f\<lparr>of_frames := of_frames f @ [frame]\<rparr>)\<rparr>)
      else w)"

definition vw_release :: "VideoWriter \<Rightarrow> VideoWriter" where
  "vw_release out = out\<lparr>vw_isOpened := False\<rparr>"

section \<open>The detector and the configuration\<close>

text \<open>
  The detector is outside the script too: a function from a frame to what
  \<^verbatim>\<open>model.predict(frame, verbose=False)[0].boxes\<close> carries, three sequences read in
  parallel, the rows \<^verbatim>\<open>xyxy\<close> of four coordinates (which the script allows to be
  \<^verbatim>\<open>None\<close>), \<^verbatim>\<open>conf\<close> and \<^verbatim>\<open>cls\<close>. The module \<^verbatim>\<open>config\<close>, from which the script imports
  the label table and the two directories, is not among the sources; its three names are
  parameters of the model.
\<close>

type_synonym box = "pyfloat \<times> pyfloat \<times> pyfloat \<times> pyfloat"

record boxes =
  boxes_xyxy :: "box list option"
  boxes_conf :: "pyfloat list"
  boxes_cls :: "pyfloat list"

type_synonym 'px detector = "'px frame \<Rightarrow> boxes"

record config =
  cfg_classes :: "int \<rightharpoonup> string"
  cfg_input_dir :: string
  cfg_output_dir :: string

section \<open>The script\<close>

definition msg_open_failed :: string where
  \<comment> \<open>the UTF-8 bytes of the Russian text of line 60, up to the path\<close>
  "msg_open_failed = map char_of
     [208, 157, 208, 181, 32, 209, 131, 208, 180, 208, 176, 208, 187, 208, 190, 209, 129, 209,
      140, 32, 208, 190, 209, 130, 208, 186, 209, 128, 209, 139, 209, 130, 209, 140, 32, 208,
      178, 208, 184, 208, 180, 208, 181, 208, 190, 32 :: nat]"

definition msg_saved :: string where
  \<comment> \<open>the UTF-8 bytes of the Russian text of line 113, up to the path\<close>
  "msg_saved = map char_of
     [208, 161, 208, 190, 209, 133, 209, 128, 208, 176, 208, 189, 209, 145, 208, 189, 32, 208,
      190, 208, 177, 209, 128, 208, 176, 208, 177, 208, 190, 209, 130, 208, 176, 208, 189, 208,
      189, 209, 139, 208, 185, 32, 209, 132, 208, 176, 208, 185, 208, 187, 58, 32 :: nat]"

definition msg_done :: string where
  \<comment> \<open>the UTF-8 bytes of the Russian text of line 134\<close>
  "msg_done = map char_of
     [208, 158, 208, 177, 209, 128, 208, 176, 208, 177, 208, 190, 209, 130, 208, 186, 208, 176,
      32, 208, 183, 208, 176, 208, 178, 208, 181, 209, 128, 209, 136, 208, 181, 208, 189, 208,
      176, 46 :: nat]"

definition get_cap_info :: "'px VideoCapture \<Rightarrow> pyfloat \<times> int \<times> int \<times> int" where
  "get_cap_info cap =
     (cap_fps cap, py_int (cap_width cap), py_int (cap_height cap),
      py_int (cap_frame_count cap))"

definition py_try ::
  "'a py \<Rightarrow> 's \<Rightarrow> ('a \<Rightarrow> py_error option \<times> 's) \<Rightarrow> py_error option \<times> 's" where
  \<comment> \<open>evaluate an expression in a statement that works on a mutable object: a raise leaves
      the statement with the object as it is at that point\<close>
  "py_try m s f = (case m of Inl e \<Rightarrow> (Some e, s) | Inr x \<Rightarrow> f x)"

fun draw_detections ::
  "(int \<rightharpoonup> string) \<Rightarrow> 'px frame \<Rightarrow> (box \<times> pyfloat \<times> pyfloat) list
     \<Rightarrow> py_error option \<times> 'px frame" where
  \<comment> \<open>lines 90 to 105: the \<^verbatim>\<open>for\<close> over \<^verbatim>\<open>zip(boxes, confs, class_ids)\<close>; the result is the
      exception that left the loop, if any, and the frame as the loop leaves it\<close>
  "draw_detections classes frame [] = (None, frame)"
| "draw_detections classes frame (((x1, y1, x2, y2), conf, cls_id) # rest) =
     (let x1 = py_int x1; y1 = py_int y1; x2 = py_int x2; y2 = py_int y2;
          frame = cv2_rectangle frame (x1, y1) (x2, y2) (0, 255, 0) 2
      in py_try (dict_lookup classes (py_int cls_id)) frame (\<lambda>class_name.
           let label = class_name @ '' '' @ format_2f conf;
               frame = cv2_putText frame label (x1, max (y1 - 10) 0)
                         FONT_HERSHEY_SIMPLEX (1 / 2) (0, 255, 255) 2
           in draw_detections classes frame rest))"

definition annotate_frame ::
  "(int \<rightharpoonup> string) \<Rightarrow> 'px detector \<Rightarrow> 'px frame \<Rightarrow> py_error option \<times> 'px frame" where
  \<comment> \<open>lines 81 to 105: one frame through the detector and the drawing\<close>
  "annotate_frame classes model frame =
     (let results = model frame;
          boxes = boxes_xyxy results;
          confs = boxes_conf results;
          class_ids = boxes_cls results
      in case boxes of
           None \<Rightarrow> (None, frame)
         | Some bs \<Rightarrow> draw_detections classes frame (zip bs (zip confs class_ids)))"

function frame_loop ::
  "(int \<rightharpoonup> string) \<Rightarrow> 'px detector \<Rightarrow> int \<Rightarrow> VideoWriter \<Rightarrow> 'px VideoCapture \<Rightarrow> int \<Rightarrow> 'px world
     \<Rightarrow> py_error option \<times> 'px VideoCapture \<times> 'px world" where
  \<comment> \<open>lines 75 to 109: the \<^verbatim>\<open>while True\<close>; the first component is the exception that left it\<close>
  "frame_loop classes model frames_total out cap frame_counter w =
     (case cap_read cap of
        None \<Rightarrow> (None, cap, w)
      | Some (frame, cap') \<Rightarrow>
          (let frame_counter = frame_counter + 1
           in case annotate_frame classes model frame of
                (Some e, frame) \<Rightarrow> (Some e, cap', w)
              | (None, frame) \<Rightarrow>
                  frame_loop classes model frames_total out cap' frame_counter
                    (py_print (''Frames processed '' @ show_int frame_counter @ ''/''
                                 @ show_int frames_total)
                       (vw_write out frame w))))"
  by pat_completeness auto
termination
  by (relation "measure (\<lambda>(classes, model, frames_total, out, cap, frame_counter, w).
                            length (cap_frames cap))")
     (auto simp: cap_read_def split: if_splits list.splits)

declare frame_loop.simps [simp del]

record 'px pv_result =
  pv_raised :: "py_error option"
  pv_world :: "'px world"
  pv_cap :: "'px VideoCapture"
  pv_out :: "VideoWriter option"

definition output_path :: "config \<Rightarrow> string \<Rightarrow> string" where
  \<comment> \<open>lines 66 and 67\<close>
  "output_path cfg filename =
     (let base_name = fst (splitext filename)
      in path_join (cfg_output_dir cfg) (base_name @ ''_processed.mp4''))"

definition process_video ::
  "config \<Rightarrow> (string \<rightharpoonup> 'px video_file) \<Rightarrow> string \<Rightarrow> string \<Rightarrow> 'px detector \<Rightarrow> 'px world
     \<Rightarrow> 'px pv_result" where
  \<comment> \<open>the result holds the exception raised, if any, the state outside, and the two
      handles as the function leaves them\<close>
  "process_video cfg sources video_path filename model w =
     (let cap = VideoCapture sources video_path
      in if \<not> cap_isOpened cap then
           \<lparr>pv_raised = None, pv_world = py_print (msg_open_failed @ video_path) w,
            pv_cap = cap, pv_out = None\<rparr>
         else
           (let (fps, width, height, frames_total) = get_cap_info cap;
                output_video_path = output_path cfg filename;
                fourcc = ''mp4v'';
                (out, w) = VideoWriter output_video_path fourcc fps (width, height) w;
                (raised, cap, w) = frame_loop (cfg_classes cfg) model frames_total out cap (- 1) w
            in case raised of
                 Some e \<Rightarrow> \<lparr>pv_raised = Some e, pv_world = w, pv_cap = cap, pv_out = Some out\<rparr>
               | None \<Rightarrow>
                   \<lparr>pv_raised = None,
                    pv_world = py_print (msg_saved @ output_video_path) w,
                    pv_cap = cap_release cap, pv_out = Some (vw_release out)\<rparr>))"

fun main_loop ::
  "(string \<Rightarrow> string) \<Rightarrow> config \<Rightarrow> (string \<rightharpoonup> 'px video_file) \<Rightarrow> 'px detector
     \<Rightarrow> string list \<Rightarrow> 'px world \<Rightarrow> py_error option \<times> 'px world" where
  \<comment> \<open>lines 128 to 132: the \<^verbatim>\<open>for\<close> over \<^verbatim>\<open>os.listdir(input_dir)\<close>\<close>
  "main_loop str_lower cfg sources model [] w = (None, w)"
| "main_loop str_lower cfg sources model (filename # rest) w =
     (if endswith_any (str_lower filename) [''.mp4'', ''.avi'', ''.mov'', ''.mkv''] then
        (let video_path = path_join (cfg_input_dir cfg) filename;
             r = process_video cfg sources video_path filename model
                   (w\<lparr>invoked := invoked w @ [(video_path, filename)]\<rparr>)
         in case pv_raised r of
              Some e \<Rightarrow> (Some e, pv_world r)
            | None \<Rightarrow> main_loop str_lower cfg sources model rest (pv_world r))
      else main_loop str_lower cfg sources model rest w)"

definition main ::
  "(string \<Rightarrow> string) \<Rightarrow> config \<Rightarrow> (string \<rightharpoonup> 'px video_file) \<Rightarrow> 'px detector
     \<Rightarrow> string list \<Rightarrow> 'px world \<Rightarrow> py_error option \<times> 'px world" where
  \<comment> \<open>\<open>str_lower\<close> is \<^verbatim>\<open>str.lower\<close>, \<open>model\<close> the loaded \<^verbatim>\<open>YOLO\<close> object and \<open>listing\<close> what
      \<^verbatim>\<open>os.listdir(input_dir)\<close> returns\<close>
  "main str_lower cfg sources model listing w =
     (case main_loop str_lower cfg sources model listing w of
        (Some e, w) \<Rightarrow> (Some e, w)
      | (None, w) \<Rightarrow> (None, py_print msg_done w))"

definition detections :: "boxes \<Rightarrow> (box \<times> pyfloat \<times> pyfloat) list" where
  \<comment> \<open>what the \<^verbatim>\<open>for\<close> of line 90 runs over: nothing when \<^verbatim>\<open>boxes\<close> is \<^verbatim>\<open>None\<close>\<close>
  "detections results =
     (case boxes_xyxy results of
        None \<Rightarrow> []
      | Some bs \<Rightarrow> zip bs (zip (boxes_conf results) (boxes_cls results)))"

section \<open>Example inputs\<close>

text \<open>
  The inputs of the scenarios: a label table with two classes, blank frames told apart by
  their raster, and a frame of two detections.
\<close>

definition ex_classes :: "int \<rightharpoonup> string" where
  "ex_classes = [0 \<mapsto> ''person'', 1 \<mapsto> ''car'']"

definition ex_frame :: "nat \<Rightarrow> nat frame" where
  "ex_frame n = \<lparr>pixels = n, drawn = []\<rparr>"

definition ex_detections :: "(box \<times> pyfloat \<times> pyfloat) list" where
  \<comment> \<open>two detections on a frame of 640 by 480; the first box reaches over the left, top and
      right edges; the confidences are the single-precision floats nearest 0.91 and 0.42\<close>
  "ex_detections =
     [((Finite (- 127 / 10), Finite (- 3), Finite (7009 / 10), Finite 300),
        Finite (15267267 / 16777216), Finite 0),
      ((Finite 100, Finite (401 / 2), Finite 220, Finite 350),
        Finite (14092861 / 33554432), Finite 1)]"

definition ex_cfg :: config where
  "ex_cfg = \<lparr>cfg_classes = ex_classes, cfg_input_dir = ''input'', cfg_output_dir = ''output''\<rparr>"

definition ex_world :: "nat world" where
  "ex_world = \<lparr>files = Map.empty, stdout = [], invoked = []\<rparr>"

definition ex_clip :: "nat video_file" where
  \<comment> \<open>three frames, 10 frames per second, 640 by 480\<close>
  "ex_clip =
     \<lparr>vf_fps = Finite 10, vf_width = Finite 640, vf_height = Finite 480,
      vf_frame_count = Finite 3, vf_frames = [ex_frame 0, ex_frame 1, ex_frame 2]\<rparr>"

definition ex_short :: "nat video_file" where
  "ex_short =
     \<lparr>vf_fps = Finite 25, vf_width = Finite 320, vf_height = Finite 240,
      vf_frame_count = Finite 1, vf_frames = [ex_frame 7]\<rparr>"

definition ex_sources :: "string \<rightharpoonup> nat video_file" where
  \<comment> \<open>what the input directory holds that can be opened\<close>
  "ex_sources =
     [''input/clip.mp4'' \<mapsto> ex_clip, ''input/clip.avi'' \<mapsto> ex_short,
      ''input/good.avi'' \<mapsto> ex_clip]"


definition ex_boxes :: "(box \<times> pyfloat \<times> pyfloat) list \<Rightarrow> boxes" where
  "ex_boxes ds =
     \<lparr>boxes_xyxy = Some (map fst ds), boxes_conf = map (fst \<circ> snd) ds,
      boxes_cls = map (snd \<circ> snd) ds\<rparr>"

definition ex_detector :: "nat detector" where
  \<comment> \<open>the two detections on the frame of raster 1, none on any other\<close>
  "ex_detector frame = (if pixels frame = 1 then ex_boxes ex_detections else ex_boxes [])"

definition ex_detector_unmapped :: "nat detector" where
  \<comment> \<open>one detection of class id 7, which \<open>ex_classes\<close> does not hold\<close>
  "ex_detector_unmapped frame =
     ex_boxes [((Finite 1, Finite 2, Finite 3, Finite 4), Finite (1 / 2), Finite 7)]"

definition ex_detector_mixed :: "nat detector" where
  \<comment> \<open>a detection of class id 7, which \<open>ex_classes\<close> does not hold, and after it the second
      detection of \<open>ex_detections\<close>\<close>
  "ex_detector_mixed frame =
     ex_boxes [((Finite 1, Finite 2, Finite 3, Finite 4), Finite (1 / 2), Finite 7),
               ((Finite 100, Finite (401 / 2), Finite 220, Finite 350),
                  Finite (14092861 / 33554432), Finite 1)]"

section \<open>The drawing loop\<close>

lemma draw_detections_stepE:
  assumes "draw_detections classes frame (((x1, y1, x2, y2), conf, cls_id) # rest) = (raised, frame')"
  obtains (stop) "classes (py_int cls_id) = None" "raised = Some (KeyError (py_int cls_id))"
        "frame' = frame\<lparr>drawn := drawn frame @
           [Rectangle (py_int x1, py_int y1) (py_int x2, py_int y2) (0, 255, 0) 2]\<rparr>"
    | (go) name where "classes (py_int cls_id) = Some name"
        "draw_detections classes
           (frame\<lparr>drawn := drawn frame @
              [Rectangle (py_int x1, py_int y1) (py_int x2, py_int y2) (0, 255, 0) 2,
               PutText (name @ '' '' @ format_2f conf) (py_int x1, max (py_int y1 - 10) 0)
                 FONT_HERSHEY_SIMPLEX (1 / 2) (0, 255, 255) 2]\<rparr>) rest = (raised, frame')"
proof (cases "classes (py_int cls_id)")
  case None
  with assms show ?thesis
    by (intro stop) (simp_all add: py_try_def dict_lookup_def cv2_rectangle_def Let_def)
next
  case (Some name)
  with assms show ?thesis
    by (intro go [of name])
       (simp_all add: py_try_def dict_lookup_def cv2_rectangle_def cv2_putText_def Let_def)
qed

lemma draw_detections_prefix:
  "draw_detections classes frame dets = (raised, frame') \<Longrightarrow>
     pixels frame' = pixels frame \<and>
     take (length (drawn frame)) (drawn frame') = drawn frame \<and>
     length (drawn frame) \<le> length (drawn frame') \<and>
     length (drawn frame') \<le> length (drawn frame) + 2 * length dets \<and>
     (raised = None \<longrightarrow> length (drawn frame') = length (drawn frame) + 2 * length dets)"
proof (induction dets arbitrary: frame)
  case Nil
  then show ?case by simp
next
  case (Cons det rest)
  obtain x1 y1 x2 y2 conf cls_id where det: "det = ((x1, y1, x2, y2), conf, cls_id)"
    by (cases det) auto
  from Cons.prems det
  have "draw_detections classes frame (((x1, y1, x2, y2), conf, cls_id) # rest) = (raised, frame')"
    by simp
  then show ?case
  proof (cases rule: draw_detections_stepE)
    case stop
    then show ?thesis by simp
  next
    case (go name)
    let ?cs = "[Rectangle (py_int x1, py_int y1) (py_int x2, py_int y2) (0, 255, 0) 2,
               PutText (name @ '' '' @ format_2f conf) (py_int x1, max (py_int y1 - 10) 0)
                 FONT_HERSHEY_SIMPLEX (1 / 2) (0, 255, 255) 2]"
    from Cons.IH [OF go(2)] have
      p: "pixels frame' = pixels frame" and
      t: "take (length (drawn frame) + 2) (drawn frame') = drawn frame @ ?cs" and
      l: "length (drawn frame) + 2 \<le> length (drawn frame')"
         "length (drawn frame') \<le> length (drawn frame) + 2 + 2 * length rest"
         "raised = None \<longrightarrow> length (drawn frame') = length (drawn frame) + 2 + 2 * length rest"
      by simp_all
    from t have "take (length (drawn frame)) (take (length (drawn frame) + 2) (drawn frame')) = drawn frame"
      by simp
    then have "take (length (drawn frame)) (drawn frame') = drawn frame"
      by (simp add: min_def)
    with p l show ?thesis by simp
  qed
qed

lemma draw_detections_calls:
  assumes "draw_detections classes frame dets = (raised, frame')"
    and "length (drawn frame) + 2 * i < length (drawn frame')"
  shows "i < length dets \<and>
         (\<exists>x1 y1 x2 y2 conf cls_id.
            dets ! i = ((x1, y1, x2, y2), conf, cls_id) \<and>
            drawn frame' ! (length (drawn frame) + 2 * i) =
              Rectangle (py_int x1, py_int y1) (py_int x2, py_int y2) (0, 255, 0) 2 \<and>
            (length (drawn frame) + 2 * i + 1 < length (drawn frame') \<longrightarrow>
               (\<exists>name. classes (py_int cls_id) = Some name \<and>
                  drawn frame' ! (length (drawn frame) + 2 * i + 1) =
                    PutText (name @ '' '' @ format_2f conf) (py_int x1, max (py_int y1 - 10) 0)
                      FONT_HERSHEY_SIMPLEX (1 / 2) (0, 255, 255) 2)))"
  using assms
proof (induction dets arbitrary: frame i)
  case Nil
  then show ?case by simp
next
  case (Cons det rest)
  obtain x1 y1 x2 y2 conf cls_id where det: "det = ((x1, y1, x2, y2), conf, cls_id)"
    by (cases det) auto
  let ?n = "length (drawn frame)"
  let ?R = "Rectangle (py_int x1, py_int y1) (py_int x2, py_int y2) (0, 255, 0) 2"
  from Cons.prems(1) det
  have "draw_detections classes frame (((x1, y1, x2, y2), conf, cls_id) # rest) = (raised, frame')"
    by simp
  then show ?case
  proof (cases rule: draw_detections_stepE)
    case stop
    with Cons.prems(2) have "i = 0" by simp
    with stop det show ?thesis by simp
  next
    case (go name)
    let ?P = "PutText (name @ '' '' @ format_2f conf) (py_int x1, max (py_int y1 - 10) 0)
                 FONT_HERSHEY_SIMPLEX (1 / 2) (0, 255, 255) 2"
    let ?frame1 = "frame\<lparr>drawn := drawn frame @ [?R, ?P]\<rparr>"
    from draw_detections_prefix [OF go(2)]
    have t: "take (?n + 2) (drawn frame') = drawn frame @ [?R, ?P]"
      and l: "?n + 2 \<le> length (drawn frame')"
      by simp_all
    have r: "drawn frame' ! ?n = ?R"
    proof -
      have "drawn frame' ! ?n = take (?n + 2) (drawn frame') ! ?n" by simp
      also have "\<dots> = ?R" by (simp only: t) simp
      finally show ?thesis .
    qed
    have p: "drawn frame' ! (?n + 1) = ?P"
    proof -
      have "drawn frame' ! (?n + 1) = take (?n + 2) (drawn frame') ! (?n + 1)" by simp
      also have "\<dots> = ?P" by (simp only: t) (simp add: nth_append)
      finally show ?thesis .
    qed
    show ?thesis
    proof (cases i)
      case 0
      with go det r p show ?thesis by simp
    next
      case (Suc j)
      with Cons.prems(2) have "length (drawn ?frame1) + 2 * j < length (drawn frame')"
        by simp
      from Cons.IH [OF go(2) this] Suc det show ?thesis
        by (simp add: add.commute add.left_commute)
    qed
  qed
qed

lemma draw_detections_reached:
  assumes "draw_detections classes frame dets = (raised, frame')"
    and "i < length dets"
    and "\<forall>j<i. classes (py_int (snd (snd (dets ! j)))) \<noteq> None"
  shows "length (drawn frame) + 2 * i < length (drawn frame') \<and>
         (classes (py_int (snd (snd (dets ! i)))) \<noteq> None \<longrightarrow>
            length (drawn frame) + 2 * i + 1 < length (drawn frame'))"
  using assms
proof (induction dets arbitrary: frame i)
  case Nil
  then show ?case by simp
next
  case (Cons det rest)
  obtain x1 y1 x2 y2 conf cls_id where det: "det = ((x1, y1, x2, y2), conf, cls_id)"
    by (cases det) auto
  from Cons.prems(1) det
  have "draw_detections classes frame (((x1, y1, x2, y2), conf, cls_id) # rest) = (raised, frame')"
    by simp
  then show ?case
  proof (cases rule: draw_detections_stepE)
    case stop
    show ?thesis
    proof (cases i)
      case 0
      with stop det show ?thesis by simp
    next
      case (Suc j)
      with Cons.prems(3) have "classes (py_int (snd (snd ((det # rest) ! 0)))) \<noteq> None"
        by blast
      with stop det show ?thesis by simp
    qed
  next
    case (go name)
    from draw_detections_prefix [OF go(2)]
    have l: "length (drawn frame) + 2 \<le> length (drawn frame')"
      by simp
    show ?thesis
    proof (cases i)
      case 0
      with l show ?thesis by simp
    next
      case (Suc j)
      with Cons.prems(2) have j: "j < length rest" by simp
      have "\<forall>k<j. classes (py_int (snd (snd (rest ! k)))) \<noteq> None"
      proof (intro allI impI)
        fix k assume "k < j"
        with Suc have "Suc k < i" by simp
        with Cons.prems(3) have "classes (py_int (snd (snd ((det # rest) ! Suc k)))) \<noteq> None"
          by blast
        then show "classes (py_int (snd (snd (rest ! k)))) \<noteq> None" by simp
      qed
      from Cons.IH [OF go(2) j this] Suc show ?thesis by simp
    qed
  qed
qed

lemma draw_detections_raises:
  "fst (draw_detections classes frame dets) = Some e \<Longrightarrow>
     \<exists>bx conf cls_id. (bx, conf, cls_id) \<in> set dets \<and>
        classes (py_int cls_id) = None \<and> e = KeyError (py_int cls_id)"
proof (induction dets arbitrary: frame)
  case Nil
  then show ?case by simp
next
  case (Cons det rest)
  obtain x1 y1 x2 y2 conf cls_id where det: "det = ((x1, y1, x2, y2), conf, cls_id)"
    by (cases det) auto
  obtain raised frame' where res: "draw_detections classes frame (det # rest) = (raised, frame')"
    by (cases "draw_detections classes frame (det # rest)") auto
  with Cons.prems have e: "raised = Some e" by simp
  from res det
  have "draw_detections classes frame (((x1, y1, x2, y2), conf, cls_id) # rest) = (raised, frame')"
    by simp
  then show ?case
  proof (cases rule: draw_detections_stepE)
    case stop
    with e det show ?thesis
      by (intro exI [of _ "(x1, y1, x2, y2)"] exI [of _ conf] exI [of _ cls_id]) simp
  next
    case (go name)
    with e have "fst (draw_detections classes
           (frame\<lparr>drawn := drawn frame @
              [Rectangle (py_int x1, py_int y1) (py_int x2, py_int y2) (0, 255, 0) 2,
               PutText (name @ '' '' @ format_2f conf) (py_int x1, max (py_int y1 - 10) 0)
                 FONT_HERSHEY_SIMPLEX (1 / 2) (0, 255, 255) 2]\<rparr>) rest) = Some e"
      by simp
    from Cons.IH [OF this] obtain bx c k where
      "(bx, c, k) \<in> set rest" "classes (py_int k) = None" "e = KeyError (py_int k)"
      by blast
    then show ?thesis
      by (intro exI [of _ bx] exI [of _ c] exI [of _ k]) simp
  qed
qed

lemma draw_detections_unmapped:
  "(bx, conf, cls_id) \<in> set dets \<Longrightarrow> classes (py_int cls_id) = None \<Longrightarrow>
     fst (draw_detections classes frame dets) \<noteq> None"
proof (induction dets arbitrary: frame)
  case Nil
  then show ?case by simp
next
  case (Cons det rest)
  obtain x1 y1 x2 y2 conf' cls_id' where det: "det = ((x1, y1, x2, y2), conf', cls_id')"
    by (cases det) auto
  obtain raised frame' where res: "draw_detections classes frame (det # rest) = (raised, frame')"
    by (cases "draw_detections classes frame (det # rest)") auto
  from res det
  have "draw_detections classes frame (((x1, y1, x2, y2), conf', cls_id') # rest) = (raised, frame')"
    by simp
  then have "raised \<noteq> None"
  proof (cases rule: draw_detections_stepE)
    case stop
    then show ?thesis by simp
  next
    case (go name)
    with Cons.prems det have "(bx, conf, cls_id) \<in> set rest" by auto
    from Cons.IH [OF this Cons.prems(2), of "frame\<lparr>drawn := drawn frame @
              [Rectangle (py_int x1, py_int y1) (py_int x2, py_int y2) (0, 255, 0) 2,
               PutText (name @ '' '' @ format_2f conf') (py_int x1, max (py_int y1 - 10) 0)
                 FONT_HERSHEY_SIMPLEX (1 / 2) (0, 255, 255) 2]\<rparr>"] go(2)
    show ?thesis by simp
  qed
  with res show ?case by simp
qed

section \<open>The frame loop and the processing of one video\<close>

lemma annotate_frame_detections:
  "annotate_frame classes model frame = draw_detections classes frame (detections (model frame))"
  by (simp add: annotate_frame_def detections_def Let_def split: option.splits)

lemma frame_loop_stop:
  "cap_read cap = None \<Longrightarrow> frame_loop classes model frames_total out cap k w = (None, cap, w)"
  by (simp add: frame_loop.simps [of _ _ _ _ cap])

lemma frame_loop_raise:
  "cap_read cap = Some (frame, cap1) \<Longrightarrow> annotate_frame classes model frame = (Some e, frame1) \<Longrightarrow>
     frame_loop classes model frames_total out cap k w = (Some e, cap1, w)"
  by (simp add: frame_loop.simps [of _ _ _ _ cap])

lemma frame_loop_write:
  "cap_read cap = Some (frame, cap1) \<Longrightarrow> annotate_frame classes model frame = (None, frame1) \<Longrightarrow>
     frame_loop classes model frames_total out cap k w =
       frame_loop classes model frames_total out cap1 (k + 1)
         (py_print (''Frames processed '' @ show_int (k + 1) @ ''/'' @ show_int frames_total)
            (vw_write out frame1 w))"
  by (simp add: frame_loop.simps [of _ _ _ _ cap] Let_def)

lemma frame_loop_spec:
  assumes "cap_isOpened cap" and "vw_isOpened out" and "files w (vw_path out) = Some f"
    and "frame_loop classes model frames_total out cap k w = (raised, cap', w')"
  shows "raised = (case dropWhile (\<lambda>r. fst r = None) (map (annotate_frame classes model) (cap_frames cap)) of
                     [] \<Rightarrow> None | r # _ \<Rightarrow> fst r) \<and>
         cap_isOpened cap' \<and>
         files w' = (files w)(vw_path out \<mapsto>
            f\<lparr>of_frames := of_frames f @
                 map snd (takeWhile (\<lambda>r. fst r = None) (map (annotate_frame classes model) (cap_frames cap)))\<rparr>) \<and>
         invoked w' = invoked w"
  using assms
proof (induction "cap_frames cap" arbitrary: cap k w f)
  case Nil
  have "cap_read cap = None"
    using Nil.hyps [symmetric] by (simp add: cap_read_def)
  from Nil.prems(4) frame_loop_stop [OF this, of classes model frames_total out k w]
  have res: "raised = None" "cap' = cap" "w' = w"
    by simp_all
  have "(files w)(vw_path out \<mapsto> f) = files w"
    using Nil.prems(3) by (rule map_upd_triv)
  with res Nil.hyps [symmetric] Nil.prems(1) show ?case
    by simp
next
  case (Cons frame rest)
  let ?cap1 = "cap\<lparr>cap_frames := rest\<rparr>"
  have rd: "cap_read cap = Some (frame, ?cap1)"
    using Cons.hyps(2) [symmetric] Cons.prems(1) by (simp add: cap_read_def)
  obtain e1 frame1 where ann: "annotate_frame classes model frame = (e1, frame1)"
    by (cases "annotate_frame classes model frame") auto
  show ?case
  proof (cases e1)
    case (Some e)
    from Cons.prems(4) frame_loop_raise [OF rd, of classes model e frame1 frames_total out k w] ann Some
    have res: "raised = Some e" "cap' = ?cap1" "w' = w"
      by simp_all
    have "(files w)(vw_path out \<mapsto> f) = files w"
      using Cons.prems(3) by (rule map_upd_triv)
    with res ann Some Cons.hyps(2) [symmetric] Cons.prems(1) show ?thesis
      by simp
  next
    case None
    let ?w1 = "py_print (''Frames processed '' @ show_int (k + 1) @ ''/'' @ show_int frames_total)
                 (vw_write out frame1 w)"
    have loop: "frame_loop classes model frames_total out ?cap1 (k + 1) ?w1 = (raised, cap', w')"
      using Cons.prems(4) frame_loop_write [OF rd, of classes model frame1 frames_total out k w] ann None
      by simp
    have f1: "files ?w1 (vw_path out) = Some (f\<lparr>of_frames := of_frames f @ [frame1]\<rparr>)"
      using Cons.prems(2,3) by (simp add: py_print_def vw_write_def)
    have "rest = cap_frames ?cap1" by simp
    from Cons.hyps(1) [OF this _ Cons.prems(2) f1 loop] Cons.prems(1)
    have IH: "raised = (case dropWhile (\<lambda>r. fst r = None) (map (annotate_frame classes model) rest) of
                     [] \<Rightarrow> None | r # _ \<Rightarrow> fst r) \<and>
         cap_isOpened cap' \<and>
         files w' = (files ?w1)(vw_path out \<mapsto>
            f\<lparr>of_frames := of_frames f @ [frame1] @
               map snd (takeWhile (\<lambda>r. fst r = None) (map (annotate_frame classes model) rest))\<rparr>) \<and>
         invoked w' = invoked ?w1"
      by simp
    have "files ?w1 = (files w)(vw_path out \<mapsto> f\<lparr>of_frames := of_frames f @ [frame1]\<rparr>)"
      using Cons.prems(2,3) by (simp add: py_print_def vw_write_def)
    moreover have "invoked ?w1 = invoked w"
      using Cons.prems(2,3) by (simp add: py_print_def vw_write_def)
    ultimately show ?thesis
      using IH ann None Cons.hyps(2) [symmetric] by simp
  qed
qed

lemma process_video_not_opened:
  assumes "sources video_path = None"
  shows "process_video cfg sources video_path filename model w =
           \<lparr>pv_raised = None, pv_world = py_print (msg_open_failed @ video_path) w,
            pv_cap = VideoCapture sources video_path, pv_out = None\<rparr>"
  using assms by (simp add: process_video_def VideoCapture_def)

lemma process_video_opened:
  assumes "sources video_path = Some v"
  shows "pv_raised (process_video cfg sources video_path filename model w) =
           (case dropWhile (\<lambda>r. fst r = None) (map (annotate_frame (cfg_classes cfg) model) (vf_frames v)) of
              [] \<Rightarrow> None | r # _ \<Rightarrow> fst r) \<and>
         files (pv_world (process_video cfg sources video_path filename model w)) =
           (files w)(output_path cfg filename \<mapsto>
              \<lparr>of_fourcc = ''mp4v'', of_fps = vf_fps v,
               of_size = (py_int (vf_width v), py_int (vf_height v)),
               of_frames = map snd (takeWhile (\<lambda>r. fst r = None)
                             (map (annotate_frame (cfg_classes cfg) model) (vf_frames v)))\<rparr>) \<and>
         invoked (pv_world (process_video cfg sources video_path filename model w)) = invoked w \<and>
         (\<exists>out. pv_out (process_video cfg sources video_path filename model w) = Some out \<and>
            vw_path out = output_path cfg filename \<and>
            vw_isOpened out = (pv_raised (process_video cfg sources video_path filename model w) \<noteq> None)) \<and>
         cap_isOpened (pv_cap (process_video cfg sources video_path filename model w)) =
           (pv_raised (process_video cfg sources video_path filename model w) \<noteq> None)"
proof -
  let ?cap = "VideoCapture sources video_path"
  let ?p = "output_path cfg filename"
  let ?f0 = "\<lparr>of_fourcc = ''mp4v'', of_fps = vf_fps v,
              of_size = (py_int (vf_width v), py_int (vf_height v)), of_frames = []\<rparr> :: 'a out_file"
  let ?out = "\<lparr>vw_path = ?p, vw_isOpened = True\<rparr>"
  let ?w0 = "w\<lparr>files := (files w)(?p \<mapsto> ?f0)\<rparr>"
  let ?total = "py_int (vf_frame_count v)"
  let ?E = "case dropWhile (\<lambda>r. fst r = None) (map (annotate_frame (cfg_classes cfg) model) (vf_frames v)) of
              [] \<Rightarrow> None | r # _ \<Rightarrow> fst r"
  have op: "cap_isOpened ?cap" and fr: "cap_frames ?cap = vf_frames v"
    and info: "get_cap_info ?cap = (vf_fps v, py_int (vf_width v), py_int (vf_height v), ?total)"
    using assms by (simp_all add: VideoCapture_def get_cap_info_def)
  obtain raised cap' w' where
    loop: "frame_loop (cfg_classes cfg) model ?total ?out ?cap (- 1) ?w0 = (raised, cap', w')"
    by (cases "frame_loop (cfg_classes cfg) model ?total ?out ?cap (- 1) ?w0") auto
  have "files ?w0 (vw_path ?out) = Some ?f0" by simp
  from frame_loop_spec [OF op _ this loop] fr
  have spec: "raised = ?E"
    "cap_isOpened cap'"
    "files w' = (files w)(?p \<mapsto>
        \<lparr>of_fourcc = ''mp4v'', of_fps = vf_fps v,
         of_size = (py_int (vf_width v), py_int (vf_height v)),
         of_frames = map snd (takeWhile (\<lambda>r. fst r = None)
                             (map (annotate_frame (cfg_classes cfg) model) (vf_frames v)))\<rparr>)"
    "invoked w' = invoked w"
    by simp_all
  have pv: "process_video cfg sources video_path filename model w =
          (case raised of
             Some e \<Rightarrow> \<lparr>pv_raised = Some e, pv_world = w', pv_cap = cap', pv_out = Some ?out\<rparr>
           | None \<Rightarrow> \<lparr>pv_raised = None, pv_world = py_print (msg_saved @ ?p) w',
                      pv_cap = cap_release cap', pv_out = Some (vw_release ?out)\<rparr>)"
    using op info loop by (simp add: process_video_def VideoWriter_def Let_def)
  show ?thesis
  proof (cases raised)
    case None
    with pv have pv': "process_video cfg sources video_path filename model w =
        \<lparr>pv_raised = None, pv_world = py_print (msg_saved @ ?p) w',
         pv_cap = cap_release cap', pv_out = Some (vw_release ?out)\<rparr>"
      by simp
    from spec(1) None have "?E = None" by simp
    then show ?thesis
      unfolding pv' using spec(2-4)
      by (simp add: py_print_def cap_release_def vw_release_def)
  next
    case (Some e)
    with pv have pv': "process_video cfg sources video_path filename model w =
        \<lparr>pv_raised = Some e, pv_world = w', pv_cap = cap', pv_out = Some ?out\<rparr>"
      by simp
    from spec(1) Some have "?E = Some e" by simp
    then show ?thesis
      unfolding pv' using spec(2-4)
      by simp
  qed
qed

lemma first_raise_None:
  "(case dropWhile (\<lambda>r. fst r = None) rs of [] \<Rightarrow> None | r # _ \<Rightarrow> fst r) = None
     \<longleftrightarrow> (\<forall>r\<in>set rs. fst r = None)"
  by (induction rs) auto

lemma first_raise_Some:
  "(case dropWhile (\<lambda>r. fst r = None) rs of [] \<Rightarrow> None | r # _ \<Rightarrow> fst r) = Some e
     \<Longrightarrow> \<exists>r\<in>set rs. fst r = Some e"
  by (induction rs) (auto split: if_splits)

lemma annotate_frame_pixels:
  "pixels (snd (annotate_frame classes model frame)) = pixels frame"
proof -
  have "draw_detections classes frame (detections (model frame)) =
          (fst (annotate_frame classes model frame), snd (annotate_frame classes model frame))"
    by (simp add: annotate_frame_detections)
  from draw_detections_prefix [OF this] show ?thesis by simp
qed

lemma draw_no_detections:
  "detections (model frame) = [] \<Longrightarrow> annotate_frame classes model frame = (None, frame)"
  by (simp add: annotate_frame_detections)

lemma process_video_returns:
  assumes "sources video_path = Some v"
    and "pv_raised (process_video cfg sources video_path filename model w) = None"
  shows "\<forall>frame\<in>set (vf_frames v). fst (annotate_frame (cfg_classes cfg) model frame) = None"
proof -
  from process_video_opened [where sources = sources and video_path = video_path, OF assms(1),
         of cfg filename model w] assms(2)
  have "(case dropWhile (\<lambda>r. fst r = None) (map (annotate_frame (cfg_classes cfg) model) (vf_frames v)) of
              [] \<Rightarrow> None | r # _ \<Rightarrow> fst r) = None"
    by simp
  then show ?thesis
    by (simp add: first_raise_None)
qed

lemma takeWhile_reaches:
  assumes "i < length xs" and "\<forall>j\<le>i. P (xs ! j)"
  shows "i < length (takeWhile P xs) \<and> takeWhile P xs ! i = xs ! i"
proof -
  have "Suc i \<le> length (takeWhile P xs)"
    using assms by (intro length_takeWhile_less_P_nth) auto
  then have "i < length (takeWhile P xs)" by simp
  then show ?thesis by (simp add: takeWhile_nth)
qed

lemma process_video_invoked:
  "invoked (pv_world (process_video cfg sources video_path filename model w)) = invoked w"
proof (cases "sources video_path")
  case None
  from process_video_not_opened [where sources = sources and video_path = video_path, OF None,
         of cfg filename model w]
  show ?thesis by (simp add: py_print_def)
next
  case (Some v)
  from process_video_opened [where sources = sources and video_path = video_path, OF Some,
         of cfg filename model w]
  show ?thesis by simp
qed

lemma process_video_writes_reached:
  assumes "sources video_path = Some v"
    and "k < length (vf_frames v)"
    and "\<forall>j\<le>k. fst (annotate_frame (cfg_classes cfg) model (vf_frames v ! j)) = None"
  shows "\<exists>file.
           files (pv_world (process_video cfg sources video_path filename model w))
             (output_path cfg filename) = Some file \<and>
           k < length (of_frames file) \<and>
           of_frames file ! k = snd (annotate_frame (cfg_classes cfg) model (vf_frames v ! k))"
proof -
  let ?rs = "map (annotate_frame (cfg_classes cfg) model) (vf_frames v)"
  let ?ok = "\<lambda>r :: py_error option \<times> 'a frame. fst r = None"
  from assms(2,3) have "\<forall>j\<le>k. ?ok (?rs ! j)" by simp
  with assms(2) have tw: "k < length (takeWhile ?ok ?rs) \<and> takeWhile ?ok ?rs ! k = ?rs ! k"
    by (intro takeWhile_reaches) simp_all
  from process_video_opened [where sources = sources and video_path = video_path, OF assms(1),
         of cfg filename model w]
  have "files (pv_world (process_video cfg sources video_path filename model w)) =
          (files w)(output_path cfg filename \<mapsto>
             \<lparr>of_fourcc = ''mp4v'', of_fps = vf_fps v,
              of_size = (py_int (vf_width v), py_int (vf_height v)),
              of_frames = map snd (takeWhile ?ok ?rs)\<rparr>)"
    by simp
  with tw assms(2) show ?thesis by simp
qed

section \<open>The batch driver\<close>

lemma main_loop_skip:
  "\<not> endswith_any (str_lower filename) [''.mp4'', ''.avi'', ''.mov'', ''.mkv''] \<Longrightarrow>
     main_loop str_lower cfg sources model (filename # rest) w = main_loop str_lower cfg sources model rest w"
  by simp

lemma main_loop_raise:
  "endswith_any (str_lower filename) [''.mp4'', ''.avi'', ''.mov'', ''.mkv''] \<Longrightarrow>
   pv_raised (process_video cfg sources (path_join (cfg_input_dir cfg) filename) filename model
     (w\<lparr>invoked := invoked w @ [(path_join (cfg_input_dir cfg) filename, filename)]\<rparr>)) = Some e \<Longrightarrow>
     main_loop str_lower cfg sources model (filename # rest) w =
       (Some e, pv_world (process_video cfg sources (path_join (cfg_input_dir cfg) filename) filename model
          (w\<lparr>invoked := invoked w @ [(path_join (cfg_input_dir cfg) filename, filename)]\<rparr>)))"
  by (simp add: Let_def)

lemma main_loop_next:
  "endswith_any (str_lower filename) [''.mp4'', ''.avi'', ''.mov'', ''.mkv''] \<Longrightarrow>
   pv_raised (process_video cfg sources (path_join (cfg_input_dir cfg) filename) filename model
     (w\<lparr>invoked := invoked w @ [(path_join (cfg_input_dir cfg) filename, filename)]\<rparr>)) = None \<Longrightarrow>
     main_loop str_lower cfg sources model (filename # rest) w =
       main_loop str_lower cfg sources model rest
         (pv_world (process_video cfg sources (path_join (cfg_input_dir cfg) filename) filename model
            (w\<lparr>invoked := invoked w @ [(path_join (cfg_input_dir cfg) filename, filename)]\<rparr>)))"
  by (simp add: Let_def)

lemma main_loop_invoked:
  "main_loop str_lower cfg sources model listing w = (raised, w') \<Longrightarrow>
     \<exists>n. invoked w' = invoked w @
            map (\<lambda>filename. (path_join (cfg_input_dir cfg) filename, filename))
              (take n (filter (\<lambda>filename. endswith_any (str_lower filename)
                                  [''.mp4'', ''.avi'', ''.mov'', ''.mkv'']) listing)) \<and>
         (raised = None \<longrightarrow>
            n = length (filter (\<lambda>filename. endswith_any (str_lower filename)
                                  [''.mp4'', ''.avi'', ''.mov'', ''.mkv'']) listing))"
proof (induction listing arbitrary: w)
  case Nil
  then show ?case by simp
next
  case (Cons filename rest)
  let ?P = "\<lambda>filename. endswith_any (str_lower filename) [''.mp4'', ''.avi'', ''.mov'', ''.mkv'']"
  let ?f = "\<lambda>filename. (path_join (cfg_input_dir cfg) filename, filename)"
  let ?r = "process_video cfg sources (path_join (cfg_input_dir cfg) filename) filename model
     (w\<lparr>invoked := invoked w @ [?f filename]\<rparr>)"
  show ?case
  proof (cases "?P filename")
    case False
    from Cons.prems main_loop_skip [where str_lower = str_lower and filename = filename, OF False, of cfg sources model rest w]
    have "main_loop str_lower cfg sources model rest w = (raised, w')"
      by simp
    from Cons.IH [OF this] False show ?thesis by simp
  next
    case True
    have inv: "invoked (pv_world ?r) = invoked w @ [?f filename]"
      by (simp add: process_video_invoked)
    show ?thesis
    proof (cases "pv_raised ?r")
      case (Some e)
      from Cons.prems main_loop_raise [where str_lower = str_lower and filename = filename, OF True Some, of rest]
      have "raised = Some e" and "w' = pv_world ?r" by simp_all
      with inv True have "invoked w' = invoked w @ map ?f (take 1 (filter ?P (filename # rest))) \<and>
         (raised = None \<longrightarrow> 1 = length (filter ?P (filename # rest)))"
        by simp
      then show ?thesis by blast
    next
      case None
      from Cons.prems main_loop_next [where str_lower = str_lower and filename = filename, OF True None, of rest]
      have "main_loop str_lower cfg sources model rest (pv_world ?r) = (raised, w')" by simp
      from Cons.IH [OF this] obtain n where
        n: "invoked w' = invoked (pv_world ?r) @ map ?f (take n (filter ?P rest))"
           "raised = None \<longrightarrow> n = length (filter ?P rest)"
        by blast
      with inv True have "invoked w' = invoked w @ map ?f (take (Suc n) (filter ?P (filename # rest))) \<and>
         (raised = None \<longrightarrow> Suc n = length (filter ?P (filename # rest)))"
        by simp
      then show ?thesis by blast
    qed
  qed
qed

lemma main_loop_append:
  "main_loop str_lower cfg sources model (before @ rest) w =
     (case main_loop str_lower cfg sources model before w of
        (Some e, w') \<Rightarrow> (Some e, w')
      | (None, w') \<Rightarrow> main_loop str_lower cfg sources model rest w')"
proof (induction before arbitrary: w)
  case Nil
  then show ?case by simp
next
  case (Cons filename before)
  show ?case
  proof (cases "endswith_any (str_lower filename) [''.mp4'', ''.avi'', ''.mov'', ''.mkv'']")
    case False
    from main_loop_skip [where str_lower = str_lower and filename = filename, OF False, of cfg sources model "before @ rest" w]
      main_loop_skip [where str_lower = str_lower and filename = filename, OF False, of cfg sources model before w] Cons.IH [of w]
    show ?thesis by (simp only: append_Cons)
  next
    case True
    let ?r = "process_video cfg sources (path_join (cfg_input_dir cfg) filename) filename model
       (w\<lparr>invoked := invoked w @ [(path_join (cfg_input_dir cfg) filename, filename)]\<rparr>)"
    show ?thesis
    proof (cases "pv_raised ?r")
      case None
      from main_loop_next [where str_lower = str_lower and filename = filename, OF True None, of "before @ rest"] main_loop_next [where str_lower = str_lower and filename = filename, OF True None, of before]
        Cons.IH [of "pv_world ?r"]
      show ?thesis by (simp only: append_Cons)
    next
      case (Some e)
      from main_loop_raise [where str_lower = str_lower and filename = filename, OF True Some, of "before @ rest"] main_loop_raise [where str_lower = str_lower and filename = filename, OF True Some, of before]
      show ?thesis by (simp only: append_Cons) simp
    qed
  qed
qed

lemma main_raises_at:
  assumes "endswith_any (str_lower filename) [''.mp4'', ''.avi'', ''.mov'', ''.mkv'']"
    and "main_loop str_lower cfg sources model before w = (None, w1)"
    and "pv_raised (process_video cfg sources (path_join (cfg_input_dir cfg) filename) filename model
           (w1\<lparr>invoked := invoked w1 @ [(path_join (cfg_input_dir cfg) filename, filename)]\<rparr>)) =
         Some e"
  shows "main str_lower cfg sources model (before @ filename # rest) w =
           (Some e,
            pv_world (process_video cfg sources (path_join (cfg_input_dir cfg) filename) filename model
              (w1\<lparr>invoked := invoked w1 @ [(path_join (cfg_input_dir cfg) filename, filename)]\<rparr>)))"
proof -
  let ?r = "process_video cfg sources (path_join (cfg_input_dir cfg) filename) filename model
              (w1\<lparr>invoked := invoked w1 @ [(path_join (cfg_input_dir cfg) filename, filename)]\<rparr>)"
  from main_loop_raise [where str_lower = str_lower and filename = filename, OF assms(1,3), of rest]
  have "main_loop str_lower cfg sources model (filename # rest) w1 = (Some e, pv_world ?r)" .
  with assms(2) have "main_loop str_lower cfg sources model (before @ filename # rest) w =
      (Some e, pv_world ?r)"
    by (simp only: main_loop_append) simp
  then show ?thesis
    unfolding main_def by (simp only:) simp
qed

lemma length_ascii_lower: "length (ascii_lower s) = length s"
  by (simp add: ascii_lower_def)

lemma endswith_ascii_lower_iff:
  "endswith (ascii_lower filename) e \<longleftrightarrow> (\<exists>stem ext. filename = stem @ ext \<and> ascii_lower ext = e)"
proof
  assume a: "endswith (ascii_lower filename) e"
  let ?k = "length filename - length e"
  have "filename = take ?k filename @ drop ?k filename" by simp
  moreover have "ascii_lower (drop ?k filename) = e"
    using a by (simp add: endswith_def ascii_lower_def drop_map)
  ultimately show "\<exists>stem ext. filename = stem @ ext \<and> ascii_lower ext = e" by blast
next
  assume "\<exists>stem ext. filename = stem @ ext \<and> ascii_lower ext = e"
  then obtain stem ext where "filename = stem @ ext" "ascii_lower ext = e" by blast
  then show "endswith (ascii_lower filename) e"
    by (auto simp: endswith_def ascii_lower_def)
qed

lemma allowed_extension_iff:
  "endswith_any (ascii_lower filename) [''.mp4'', ''.avi'', ''.mov'', ''.mkv''] \<longleftrightarrow>
     (\<exists>stem ext. filename = stem @ ext \<and> ascii_lower ext \<in> {''.mp4'', ''.avi'', ''.mov'', ''.mkv''})"
  unfolding endswith_any_def list_ex_iff
  by (simp add: endswith_ascii_lower_iff) blast

lemma endswith_path_join:
  "endswith (path_join a (b @ e)) e"
  by (simp add: path_join_def endswith_def)

lemma splitext_append:
  "fst (splitext p) @ snd (splitext p) = p"
  by (simp add: splitext_def Let_def)

lemma main_invoked:
  assumes "main str_lower cfg sources model listing w = (raised, w')"
  shows "\<exists>n. invoked w' = invoked w @
            map (\<lambda>filename. (path_join (cfg_input_dir cfg) filename, filename))
              (take n (filter (\<lambda>filename. endswith_any (str_lower filename)
                                  [''.mp4'', ''.avi'', ''.mov'', ''.mkv'']) listing)) \<and>
         (raised = None \<longrightarrow>
            n = length (filter (\<lambda>filename. endswith_any (str_lower filename)
                                  [''.mp4'', ''.avi'', ''.mov'', ''.mkv'']) listing))"
proof -
  obtain r0 w0 where loop: "main_loop str_lower cfg sources model listing w = (r0, w0)"
    by (cases "main_loop str_lower cfg sources model listing w") auto
  with assms have "raised = r0 \<and> invoked w' = invoked w0"
    by (cases r0) (auto simp: main_def py_print_def)
  with main_loop_invoked [OF loop] show ?thesis by simp
qed


section \<open>The claims\<close>


lemma py_int_truncates:
  "\<bar>of_int (py_int (Finite q))\<bar> \<le> \<bar>q\<bar> \<and> \<bar>q - of_int (py_int (Finite q))\<bar> < 1"
proof (cases "0 \<le> q")
  case True
  then have "0 \<le> \<lfloor>q\<rfloor>" by simp
  moreover have "of_int \<lfloor>q\<rfloor> \<le> q" "q < of_int \<lfloor>q\<rfloor> + 1" by linarith+
  ultimately show ?thesis using True by (simp add: py_int_def)
next
  case False
  then have "\<lceil>q\<rceil> \<le> 0" by (simp add: ceiling_le_zero)
  moreover have "q \<le> of_int \<lceil>q\<rceil>" "of_int \<lceil>q\<rceil> < q + 1" by linarith+
  ultimately show ?thesis using False by (simp add: py_int_def)
qed

text \<open>
  C9, as amended. Take a frame that the frame loop reaches (the source opened and no
  earlier frame raised) and a detection that the detector returns on it, such that the
  class ids of the detections before it on that frame are in the label table. Then the
  drawing loop draws the rectangle of this detection on the frame, at the detection's
  place among the calls, with the four coordinates the detector returned, each cut to its
  integer part by \<^verbatim>\<open>int\<close> and otherwise unchanged: the loop reads no frame size and clamps
  no box coordinate, so a box that reaches outside the frame is drawn as given. No
  rectangle is drawn on the frame but those of its detections, and none for a detection
  that comes after one whose class id the table does not hold. The one clamp is that of
  the label, which, when the class id of the detection is in the table, is put at
  \<open>max (y1 - 10) 0\<close>. When the frame raises nothing, it is this frame, with the rectangle,
  that the output file holds at the frame's position.
\<close>

theorem box_drawn_as_returned:
  assumes "sources video_path = Some v"
    and "k < length (vf_frames v)"
    and "\<forall>j<k. fst (annotate_frame (cfg_classes cfg) model (vf_frames v ! j)) = None"
    and "i < length (detections (model (vf_frames v ! k)))"
    and "detections (model (vf_frames v ! k)) ! i = ((x1, y1, x2, y2), conf, cls_id)"
    and "\<forall>j<i. cfg_classes cfg (py_int (snd (snd (detections (model (vf_frames v ! k)) ! j)))) \<noteq> None"
  shows "length (drawn (vf_frames v ! k)) + 2 * i <
           length (drawn (snd (annotate_frame (cfg_classes cfg) model (vf_frames v ! k)))) \<and>
         drawn (snd (annotate_frame (cfg_classes cfg) model (vf_frames v ! k))) !
             (length (drawn (vf_frames v ! k)) + 2 * i) =
           Rectangle (py_int x1, py_int y1) (py_int x2, py_int y2) (0, 255, 0) 2 \<and>
         (\<forall>q. \<bar>of_int (py_int (Finite q))\<bar> \<le> \<bar>q\<bar> \<and> \<bar>q - of_int (py_int (Finite q))\<bar> < 1) \<and>
         (\<forall>n. length (drawn (vf_frames v ! k)) + 2 * n <
                 length (drawn (snd (annotate_frame (cfg_classes cfg) model (vf_frames v ! k)))) \<longrightarrow>
            n < length (detections (model (vf_frames v ! k))) \<and>
            (\<exists>a1 b1 a2 b2 c d.
               detections (model (vf_frames v ! k)) ! n = ((a1, b1, a2, b2), c, d) \<and>
               drawn (snd (annotate_frame (cfg_classes cfg) model (vf_frames v ! k))) !
                   (length (drawn (vf_frames v ! k)) + 2 * n) =
                 Rectangle (py_int a1, py_int b1) (py_int a2, py_int b2) (0, 255, 0) 2)) \<and>
         (\<forall>name. cfg_classes cfg (py_int cls_id) = Some name \<longrightarrow>
            drawn (snd (annotate_frame (cfg_classes cfg) model (vf_frames v ! k))) !
                (length (drawn (vf_frames v ! k)) + 2 * i + 1) =
              PutText (name @ '' '' @ format_2f conf) (py_int x1, max (py_int y1 - 10) 0)
                FONT_HERSHEY_SIMPLEX (1 / 2) (0, 255, 255) 2) \<and>
         (\<forall>m. m < length (detections (model (vf_frames v ! k))) \<and>
              cfg_classes cfg (py_int (snd (snd (detections (model (vf_frames v ! k)) ! m)))) = None \<longrightarrow>
            length (drawn (snd (annotate_frame (cfg_classes cfg) model (vf_frames v ! k)))) \<le>
              length (drawn (vf_frames v ! k)) + 2 * m + 1) \<and>
         (fst (annotate_frame (cfg_classes cfg) model (vf_frames v ! k)) = None \<longrightarrow>
            (\<exists>file.
               files (pv_world (process_video cfg sources video_path filename model w))
                 (output_path cfg filename) = Some file \<and>
               k < length (of_frames file) \<and>
               of_frames file ! k =
                 snd (annotate_frame (cfg_classes cfg) model (vf_frames v ! k))))"
proof -
  let ?frame = "vf_frames v ! k"
  let ?dets = "detections (model ?frame)"
  let ?r = "annotate_frame (cfg_classes cfg) model ?frame"
  let ?n = "length (drawn ?frame)"
  have res: "draw_detections (cfg_classes cfg) ?frame ?dets = (fst ?r, snd ?r)"
    by (simp add: annotate_frame_detections)
  from draw_detections_reached [OF res assms(4,6)]
  have reach: "?n + 2 * i < length (drawn (snd ?r))"
    and reach': "cfg_classes cfg (py_int (snd (snd (?dets ! i)))) \<noteq> None \<longrightarrow>
                   ?n + 2 * i + 1 < length (drawn (snd ?r))"
    by simp_all
  from draw_detections_calls [OF res reach] assms(5)
  have rect: "drawn (snd ?r) ! (?n + 2 * i) =
                Rectangle (py_int x1, py_int y1) (py_int x2, py_int y2) (0, 255, 0) 2"
    and lab: "?n + 2 * i + 1 < length (drawn (snd ?r)) \<longrightarrow>
               (\<exists>name. cfg_classes cfg (py_int cls_id) = Some name \<and>
                  drawn (snd ?r) ! (?n + 2 * i + 1) =
                    PutText (name @ '' '' @ format_2f conf) (py_int x1, max (py_int y1 - 10) 0)
                      FONT_HERSHEY_SIMPLEX (1 / 2) (0, 255, 255) 2)"
    by simp_all
  have trunc: "\<forall>q. \<bar>of_int (py_int (Finite q))\<bar> \<le> \<bar>q\<bar> \<and> \<bar>q - of_int (py_int (Finite q))\<bar> < 1"
    using py_int_truncates by blast
  have only: "\<forall>n. ?n + 2 * n < length (drawn (snd ?r)) \<longrightarrow>
            n < length ?dets \<and>
            (\<exists>a1 b1 a2 b2 c d.
               ?dets ! n = ((a1, b1, a2, b2), c, d) \<and>
               drawn (snd ?r) ! (?n + 2 * n) =
                 Rectangle (py_int a1, py_int b1) (py_int a2, py_int b2) (0, 255, 0) 2)"
  proof (intro allI impI)
    fix n assume "?n + 2 * n < length (drawn (snd ?r))"
    from draw_detections_calls [OF res this]
    show "n < length ?dets \<and>
            (\<exists>a1 b1 a2 b2 c d.
               ?dets ! n = ((a1, b1, a2, b2), c, d) \<and>
               drawn (snd ?r) ! (?n + 2 * n) =
                 Rectangle (py_int a1, py_int b1) (py_int a2, py_int b2) (0, 255, 0) 2)"
      by blast
  qed
  have label: "\<forall>name. cfg_classes cfg (py_int cls_id) = Some name \<longrightarrow>
            drawn (snd ?r) ! (?n + 2 * i + 1) =
              PutText (name @ '' '' @ format_2f conf) (py_int x1, max (py_int y1 - 10) 0)
                FONT_HERSHEY_SIMPLEX (1 / 2) (0, 255, 255) 2"
  proof (intro allI impI)
    fix name assume "cfg_classes cfg (py_int cls_id) = Some name"
    with reach' lab assms(5)
    show "drawn (snd ?r) ! (?n + 2 * i + 1) =
              PutText (name @ '' '' @ format_2f conf) (py_int x1, max (py_int y1 - 10) 0)
                FONT_HERSHEY_SIMPLEX (1 / 2) (0, 255, 255) 2"
      by simp
  qed
  have stops: "\<forall>m. m < length ?dets \<and> cfg_classes cfg (py_int (snd (snd (?dets ! m)))) = None \<longrightarrow>
            length (drawn (snd ?r)) \<le> ?n + 2 * m + 1"
  proof (intro allI impI)
    fix m
    assume a: "m < length ?dets \<and> cfg_classes cfg (py_int (snd (snd (?dets ! m)))) = None"
    show "length (drawn (snd ?r)) \<le> ?n + 2 * m + 1"
    proof (rule ccontr)
      assume "\<not> length (drawn (snd ?r)) \<le> ?n + 2 * m + 1"
      then have l: "?n + 2 * m < length (drawn (snd ?r))"
        and l': "?n + 2 * m + 1 < length (drawn (snd ?r))"
        by simp_all
      from draw_detections_calls [OF res l] l'
      obtain a1 b1 a2 b2 c d name where "?dets ! m = ((a1, b1, a2, b2), c, d)"
        and "cfg_classes cfg (py_int d) = Some name"
        by blast
      with a show False by simp
    qed
  qed
  have written: "fst ?r = None \<longrightarrow>
            (\<exists>file.
               files (pv_world (process_video cfg sources video_path filename model w))
                 (output_path cfg filename) = Some file \<and>
               k < length (of_frames file) \<and>
               of_frames file ! k = snd ?r)"
  proof
    assume ok: "fst ?r = None"
    have "\<forall>j\<le>k. fst (annotate_frame (cfg_classes cfg) model (vf_frames v ! j)) = None"
    proof (intro allI impI)
      fix j assume "j \<le> k"
      then consider "j < k" | "j = k" by linarith
      then show "fst (annotate_frame (cfg_classes cfg) model (vf_frames v ! j)) = None"
        using assms(3) ok by cases simp_all
    qed
    from process_video_writes_reached [where sources = sources and video_path = video_path,
        OF assms(1,2) this]
    show "\<exists>file.
               files (pv_world (process_video cfg sources video_path filename model w))
                 (output_path cfg filename) = Some file \<and>
               k < length (of_frames file) \<and>
               of_frames file ! k = snd ?r" .
  qed
  from reach rect trunc only label stops written show ?thesis
    by (intro conjI)
qed

theorem box_drawn_as_returned_witness:
  "ex_sources ''input/clip.mp4'' = Some ex_clip \<and>
   1 < length (vf_frames ex_clip) \<and>
   fst (annotate_frame (cfg_classes ex_cfg) ex_detector (vf_frames ex_clip ! 0)) = None \<and>
   detections (ex_detector (vf_frames ex_clip ! 1)) ! 0 =
     ((Finite (- 127 / 10), Finite (- 3), Finite (7009 / 10), Finite 300),
      Finite (15267267 / 16777216), Finite 0) \<and>
   detections (ex_detector (vf_frames ex_clip ! 1)) ! 1 =
     ((Finite 100, Finite (401 / 2), Finite 220, Finite 350),
      Finite (14092861 / 33554432), Finite 1) \<and>
   cfg_classes ex_cfg (py_int (snd (snd (detections (ex_detector (vf_frames ex_clip ! 1)) ! 0)))) \<noteq> None \<and>
   drawn (snd (annotate_frame (cfg_classes ex_cfg) ex_detector (vf_frames ex_clip ! 1))) ! 0 =
     Rectangle (- 12, - 3) (700, 300) (0, 255, 0) 2 \<and>
   drawn (snd (annotate_frame (cfg_classes ex_cfg) ex_detector (vf_frames ex_clip ! 1))) ! 2 =
     Rectangle (100, 200) (220, 350) (0, 255, 0) 2 \<and>
   (\<exists>file.
      files (pv_world (process_video ex_cfg ex_sources ''input/clip.mp4'' ''clip.mp4'' ex_detector ex_world))
        (output_path ex_cfg ''clip.mp4'') = Some file \<and>
      1 < length (of_frames file) \<and>
      of_frames file ! 1 = snd (annotate_frame (cfg_classes ex_cfg) ex_detector (vf_frames ex_clip ! 1)))"
proof -
  let ?dets = "detections (ex_detector (vf_frames ex_clip ! 1))"
  have h1: "ex_sources ''input/clip.mp4'' = Some ex_clip"
    by (simp add: ex_sources_def)
  have h2: "1 < length (vf_frames ex_clip)"
    by (simp add: ex_clip_def)
  have a0: "fst (annotate_frame (cfg_classes ex_cfg) ex_detector (vf_frames ex_clip ! 0)) = None"
    by code_simp
  then have h3: "\<forall>j<1. fst (annotate_frame (cfg_classes ex_cfg) ex_detector (vf_frames ex_clip ! j)) = None"
    by simp
  have l0: "0 < length ?dets" by code_simp
  have l1: "1 < length ?dets" by code_simp
  have d0: "?dets ! 0 =
     ((Finite (- 127 / 10), Finite (- 3), Finite (7009 / 10), Finite 300),
      Finite (15267267 / 16777216), Finite 0)"
    by code_simp
  have d1: "?dets ! 1 =
     ((Finite 100, Finite (401 / 2), Finite 220, Finite 350),
      Finite (14092861 / 33554432), Finite 1)"
    by code_simp
  have c0: "cfg_classes ex_cfg (py_int (snd (snd (?dets ! 0)))) \<noteq> None"
    by code_simp
  have p0: "\<forall>j<0. cfg_classes ex_cfg (py_int (snd (snd (?dets ! j)))) \<noteq> None"
    by simp
  from c0 have p1: "\<forall>j<1. cfg_classes ex_cfg (py_int (snd (snd (?dets ! j)))) \<noteq> None"
    by simp
  have n: "length (drawn (vf_frames ex_clip ! 1)) = 0"
    by code_simp
  have t: "py_int (Finite (- 127 / 10)) = - 12" "py_int (Finite (- 3)) = - 3"
    "py_int (Finite (7009 / 10)) = 700" "py_int (Finite 300) = 300"
    "py_int (Finite 100) = 100" "py_int (Finite (401 / 2)) = 200"
    "py_int (Finite 220) = 220" "py_int (Finite 350) = 350"
    by code_simp+
  have idx: "0 + 2 * 0 = (0 :: nat)" "0 + 2 * 1 = (2 :: nat)"
    by simp_all
  have ok: "fst (annotate_frame (cfg_classes ex_cfg) ex_detector (vf_frames ex_clip ! 1)) = None"
    by code_simp
  note inst0 = box_drawn_as_returned [where sources = ex_sources
      and video_path = "''input/clip.mp4''" and model = ex_detector and cfg = ex_cfg
      and filename = "''clip.mp4''" and w = ex_world, OF h1 h2 h3 l0 d0 p0]
  note inst1 = box_drawn_as_returned [where sources = ex_sources
      and video_path = "''input/clip.mp4''" and model = ex_detector and cfg = ex_cfg
      and filename = "''clip.mp4''" and w = ex_world, OF h1 h2 h3 l1 d1 p1]
  from inst0 [THEN conjunct2, THEN conjunct1]
  have r0: "drawn (snd (annotate_frame (cfg_classes ex_cfg) ex_detector (vf_frames ex_clip ! 1))) ! 0 =
     Rectangle (- 12, - 3) (700, 300) (0, 255, 0) 2"
    by (simp only: n t idx)
  from inst1 [THEN conjunct2, THEN conjunct1]
  have r1: "drawn (snd (annotate_frame (cfg_classes ex_cfg) ex_detector (vf_frames ex_clip ! 1))) ! 2 =
     Rectangle (100, 200) (220, 350) (0, 255, 0) 2"
    by (simp only: n t idx)
  note f = inst0 [THEN conjunct2, THEN conjunct2, THEN conjunct2, THEN conjunct2, THEN conjunct2,
      THEN conjunct2, THEN mp, OF ok]
  from h1 h2 a0 d0 d1 c0 r0 r1 f show ?thesis
    by (intro conjI)
qed

text \<open>
  C9 as it stands fails on a frame with two detections of which the first has a class id
  that the label table does not hold: the lookup for the first raises, the loop is left,
  and the box of the second is never drawn.
\<close>

theorem box_drawn_counterexample:
  "ex_sources ''input/clip.avi'' = Some ex_short \<and>
   vf_frames ex_short ! 0 = ex_frame 7 \<and>
   detections (ex_detector_mixed (ex_frame 7)) ! 1 =
     ((Finite 100, Finite (401 / 2), Finite 220, Finite 350), Finite (14092861 / 33554432), Finite 1) \<and>
   annotate_frame (cfg_classes ex_cfg) ex_detector_mixed (ex_frame 7) =
     (Some (KeyError 7), \<lparr>pixels = 7, drawn = [Rectangle (1, 2) (3, 4) (0, 255, 0) 2]\<rparr>) \<and>
   Rectangle (100, 200) (220, 350) (0, 255, 0) 2 \<notin>
     set (drawn (snd (annotate_frame (cfg_classes ex_cfg) ex_detector_mixed (ex_frame 7)))) \<and>
   pv_raised (process_video ex_cfg ex_sources ''input/clip.avi'' ''clip.avi''
     ex_detector_mixed ex_world) = Some (KeyError 7) \<and>
   map_option of_frames
     (files (pv_world (process_video ex_cfg ex_sources ''input/clip.avi'' ''clip.avi''
        ex_detector_mixed ex_world)) ''output/clip_processed.mp4'') = Some []"
  by code_simp



text \<open>
  C1, as amended. When the source opens and \<open>process_video\<close> raises nothing, the output
  file holds one frame for each frame of the source, in the order of the source: the
  frame at a position is the source's frame at that position with its own detections
  drawn on it, so the rasters are those of the source, and as many.
\<close>

theorem frames_written_in_read_order:
  assumes "sources video_path = Some v"
    and "pv_raised (process_video cfg sources video_path filename model w) = None"
  shows "\<exists>file.
           files (pv_world (process_video cfg sources video_path filename model w))
             (output_path cfg filename) = Some file \<and>
           of_frames file =
             map (\<lambda>frame. snd (annotate_frame (cfg_classes cfg) model frame)) (vf_frames v) \<and>
           map pixels (of_frames file) = map pixels (vf_frames v) \<and>
           length (of_frames file) = length (vf_frames v)"
proof -
  let ?rs = "map (annotate_frame (cfg_classes cfg) model) (vf_frames v)"
  from process_video_returns [OF assms]
  have "takeWhile (\<lambda>r. fst r = None) ?rs = ?rs"
    by (simp add: takeWhile_eq_all_conv)
  with process_video_opened [where sources = sources and video_path = video_path, OF assms(1),
         of cfg filename model w]
  have "files (pv_world (process_video cfg sources video_path filename model w)) =
          (files w)(output_path cfg filename \<mapsto>
             \<lparr>of_fourcc = ''mp4v'', of_fps = vf_fps v,
              of_size = (py_int (vf_width v), py_int (vf_height v)),
              of_frames = map snd ?rs\<rparr>)"
    by simp
  then show ?thesis
    by (simp add: comp_def annotate_frame_pixels)
qed

theorem frames_written_in_read_order_witness:
  "ex_sources ''input/clip.mp4'' = Some ex_clip \<and>
   pv_raised (process_video ex_cfg ex_sources ''input/clip.mp4'' ''clip.mp4'' ex_detector ex_world) = None \<and>
   (\<exists>file.
      files (pv_world (process_video ex_cfg ex_sources ''input/clip.mp4'' ''clip.mp4'' ex_detector ex_world))
        (output_path ex_cfg ''clip.mp4'') = Some file \<and>
      of_frames file =
        map (\<lambda>frame. snd (annotate_frame (cfg_classes ex_cfg) ex_detector frame)) (vf_frames ex_clip) \<and>
      map pixels (of_frames file) = map pixels (vf_frames ex_clip) \<and>
      length (of_frames file) = length (vf_frames ex_clip))"
proof -
  have h1: "ex_sources ''input/clip.mp4'' = Some ex_clip"
    by (simp add: ex_sources_def)
  have h2: "pv_raised (process_video ex_cfg ex_sources ''input/clip.mp4'' ''clip.mp4''
              ex_detector ex_world) = None"
    by code_simp
  from h1 h2 frames_written_in_read_order [OF h1 h2] show ?thesis
    by (intro conjI)
qed

text \<open>
  C1 as it stands fails on a video whose source opens: the one frame of
  \<open>ex_short\<close> is read (the capture is left with no frame), its detection has the class id
  7, the lookup in the label table raises, and the output file is left with no frame.
\<close>

theorem frames_written_counterexample:
  "ex_sources ''input/clip.avi'' = Some ex_short \<and>
   vf_frames ex_short = [ex_frame 7] \<and>
   cap_frames (pv_cap (process_video ex_cfg ex_sources ''input/clip.avi'' ''clip.avi''
     ex_detector_unmapped ex_world)) = [] \<and>
   map_option of_frames
     (files (pv_world (process_video ex_cfg ex_sources ''input/clip.avi'' ''clip.avi''
        ex_detector_unmapped ex_world)) ''output/clip_processed.mp4'') = Some [] \<and>
   pv_raised (process_video ex_cfg ex_sources ''input/clip.avi'' ''clip.avi''
     ex_detector_unmapped ex_world) = Some (KeyError 7) \<and>
   map_option (length \<circ> of_frames)
     (files (pv_world (process_video ex_cfg ex_sources ''input/clip.avi'' ''clip.avi''
        ex_detector_unmapped ex_world)) ''output/clip_processed.mp4'') \<noteq>
     Some (length (vf_frames ex_short))"
  by code_simp

text \<open>
  C4. A frame on which the detector returns no detection (no boxes at all, or empty
  sequences) leaves the drawing loop as it entered it. When the loop reaches such a
  frame, which it does when the source opened and no earlier frame raised, the output
  file holds at the frame's position the very frame that was read.
\<close>

theorem frame_without_detections_unchanged:
  assumes "sources video_path = Some v"
    and "i < length (vf_frames v)"
    and "\<forall>j<i. fst (annotate_frame (cfg_classes cfg) model (vf_frames v ! j)) = None"
    and "detections (model (vf_frames v ! i)) = []"
  shows "annotate_frame (cfg_classes cfg) model (vf_frames v ! i) = (None, vf_frames v ! i) \<and>
         (\<exists>file.
            files (pv_world (process_video cfg sources video_path filename model w))
              (output_path cfg filename) = Some file \<and>
            i < length (of_frames file) \<and>
            of_frames file ! i = vf_frames v ! i)"
proof -
  let ?rs = "map (annotate_frame (cfg_classes cfg) model) (vf_frames v)"
  let ?ok = "\<lambda>r :: py_error option \<times> 'a frame. fst r = None"
  have same: "annotate_frame (cfg_classes cfg) model (vf_frames v ! i) = (None, vf_frames v ! i)"
    using assms(4) by (rule draw_no_detections)
  have "\<forall>j\<le>i. ?ok (?rs ! j)"
  proof (intro allI impI)
    fix j assume "j \<le> i"
    then consider "j < i" | "j = i" by linarith
    then show "?ok (?rs ! j)"
      using assms(2,3) same by cases simp_all
  qed
  with assms(2) have tw: "i < length (takeWhile ?ok ?rs) \<and> takeWhile ?ok ?rs ! i = ?rs ! i"
    by (intro takeWhile_reaches) simp_all
  from process_video_opened [where sources = sources and video_path = video_path, OF assms(1),
         of cfg filename model w]
  have "files (pv_world (process_video cfg sources video_path filename model w)) =
          (files w)(output_path cfg filename \<mapsto>
             \<lparr>of_fourcc = ''mp4v'', of_fps = vf_fps v,
              of_size = (py_int (vf_width v), py_int (vf_height v)),
              of_frames = map snd (takeWhile ?ok ?rs)\<rparr>)"
    by simp
  with tw same assms(2) show ?thesis by simp
qed

theorem frame_without_detections_unchanged_witness:
  "ex_sources ''input/clip.mp4'' = Some ex_clip \<and>
   2 < length (vf_frames ex_clip) \<and>
   fst (annotate_frame (cfg_classes ex_cfg) ex_detector (vf_frames ex_clip ! 0)) = None \<and>
   fst (annotate_frame (cfg_classes ex_cfg) ex_detector (vf_frames ex_clip ! 1)) = None \<and>
   detections (ex_detector (vf_frames ex_clip ! 2)) = [] \<and>
   annotate_frame (cfg_classes ex_cfg) ex_detector (vf_frames ex_clip ! 2) = (None, vf_frames ex_clip ! 2) \<and>
   (\<exists>file.
      files (pv_world (process_video ex_cfg ex_sources ''input/clip.mp4'' ''clip.mp4'' ex_detector ex_world))
        (output_path ex_cfg ''clip.mp4'') = Some file \<and>
      2 < length (of_frames file) \<and>
      of_frames file ! 2 = vf_frames ex_clip ! 2)"
proof -
  have h1: "ex_sources ''input/clip.mp4'' = Some ex_clip"
    by (simp add: ex_sources_def)
  have h3: "2 < length (vf_frames ex_clip)"
    by (simp add: ex_clip_def)
  have a0: "fst (annotate_frame (cfg_classes ex_cfg) ex_detector (vf_frames ex_clip ! 0)) = None"
    by code_simp
  have a1: "fst (annotate_frame (cfg_classes ex_cfg) ex_detector (vf_frames ex_clip ! 1)) = None"
    by code_simp
  have h4: "\<forall>j<2. fst (annotate_frame (cfg_classes ex_cfg) ex_detector (vf_frames ex_clip ! j)) = None"
  proof (intro allI impI)
    fix j :: nat assume "j < 2"
    then consider "j = 0" | "j = 1" by linarith
    then show "fst (annotate_frame (cfg_classes ex_cfg) ex_detector (vf_frames ex_clip ! j)) = None"
      using a0 a1 by cases simp_all
  qed
  have h5: "detections (ex_detector (vf_frames ex_clip ! 2)) = []"
    by code_simp
  from h1 h3 a0 a1 h5
    frame_without_detections_unchanged [where sources = ex_sources
      and video_path = "''input/clip.mp4''" and model = ex_detector and cfg = ex_cfg
      and filename = "''clip.mp4''" and w = ex_world, OF h1 h3 h4 h5]
  show ?thesis by (intro conjI) simp_all
qed

text \<open>
  C5. When the source opens and \<open>process_video\<close> raises nothing, the files after the call
  are the files before it with one path set: the output directory joined with the stem
  of the file name (what \<^verbatim>\<open>os.path.splitext\<close> leaves when it cuts the extension off),
  \<^verbatim>\<open>_processed\<close> and \<^verbatim>\<open>.mp4\<close>. Whatever the extension of the input, the path ends in
  \<^verbatim>\<open>_processed.mp4\<close>.
\<close>

theorem one_output_file_named_from_stem:
  assumes "sources video_path = Some v"
    and "pv_raised (process_video cfg sources video_path filename model w) = None"
  shows "(\<exists>file.
            files (pv_world (process_video cfg sources video_path filename model w)) =
              (files w)(path_join (cfg_output_dir cfg)
                          (fst (splitext filename) @ ''_processed'' @ ''.mp4'') \<mapsto> file)) \<and>
         fst (splitext filename) @ snd (splitext filename) = filename \<and>
         endswith (path_join (cfg_output_dir cfg)
                     (fst (splitext filename) @ ''_processed'' @ ''.mp4'')) ''_processed.mp4''"
proof -
  have p: "output_path cfg filename =
             path_join (cfg_output_dir cfg) (fst (splitext filename) @ ''_processed'' @ ''.mp4'')"
    by (simp add: output_path_def)
  from process_video_opened [where sources = sources and video_path = video_path, OF assms(1),
         of cfg filename model w]
  have "\<exists>file. files (pv_world (process_video cfg sources video_path filename model w)) =
          (files w)(output_path cfg filename \<mapsto> file)"
    by blast
  moreover have "endswith (path_join (cfg_output_dir cfg)
                     (fst (splitext filename) @ ''_processed'' @ ''.mp4'')) ''_processed.mp4''"
    using endswith_path_join [of "cfg_output_dir cfg" "fst (splitext filename)" "''_processed.mp4''"]
    by simp
  ultimately show ?thesis
    unfolding p using splitext_append [of filename] by simp
qed

theorem one_output_file_named_from_stem_witness:
  "ex_sources ''input/good.avi'' = Some ex_clip \<and>
   pv_raised (process_video ex_cfg ex_sources ''input/good.avi'' ''good.avi'' ex_detector ex_world) = None \<and>
   path_join (cfg_output_dir ex_cfg) (fst (splitext ''good.avi'') @ ''_processed'' @ ''.mp4'') =
     ''output/good_processed.mp4'' \<and>
   (\<exists>file.
      files (pv_world (process_video ex_cfg ex_sources ''input/good.avi'' ''good.avi'' ex_detector ex_world)) =
        (files ex_world)(''output/good_processed.mp4'' \<mapsto> file)) \<and>
   endswith ''output/good_processed.mp4'' ''_processed.mp4''"
proof -
  have h1: "ex_sources ''input/good.avi'' = Some ex_clip"
    by (simp add: ex_sources_def)
  have h2: "pv_raised (process_video ex_cfg ex_sources ''input/good.avi'' ''good.avi''
              ex_detector ex_world) = None"
    by code_simp
  have p: "path_join (cfg_output_dir ex_cfg) (fst (splitext ''good.avi'') @ ''_processed'' @ ''.mp4'') =
             ''output/good_processed.mp4''"
    by code_simp
  note c = one_output_file_named_from_stem [OF h1 h2, unfolded p]
  from c have e: "\<exists>file.
      files (pv_world (process_video ex_cfg ex_sources ''input/good.avi'' ''good.avi'' ex_detector ex_world)) =
        (files ex_world)(''output/good_processed.mp4'' \<mapsto> file)"
    by (rule conjunct1)
  from c have f: "endswith ''output/good_processed.mp4'' ''_processed.mp4''"
    by simp
  from h1 h2 p e f show ?thesis
    by (intro conjI)
qed

text \<open>
  C7. \<open>process_video\<close> returns in two ways. When the source does not open, it returns at
  once: the capture holds nothing open, no writer has been made and no file touched. When
  the source opens and the frames run out, it returns after the two \<^verbatim>\<open>release\<close> calls: the
  capture and the writer are both closed.
\<close>

theorem handles_released_on_return:
  "(sources video_path = None \<longrightarrow>
      pv_raised (process_video cfg sources video_path filename model w) = None \<and>
      \<not> cap_isOpened (pv_cap (process_video cfg sources video_path filename model w)) \<and>
      pv_out (process_video cfg sources video_path filename model w) = None \<and>
      files (pv_world (process_video cfg sources video_path filename model w)) = files w) \<and>
   (sources video_path \<noteq> None \<and>
    pv_raised (process_video cfg sources video_path filename model w) = None \<longrightarrow>
      \<not> cap_isOpened (pv_cap (process_video cfg sources video_path filename model w)) \<and>
      (\<exists>out. pv_out (process_video cfg sources video_path filename model w) = Some out \<and>
         \<not> vw_isOpened out))"
proof (intro conjI impI)
  assume "sources video_path = None"
  from process_video_not_opened [where sources = sources and video_path = video_path, OF this,
         of cfg filename model w]
  show "pv_raised (process_video cfg sources video_path filename model w) = None"
    and "\<not> cap_isOpened (pv_cap (process_video cfg sources video_path filename model w))"
    and "pv_out (process_video cfg sources video_path filename model w) = None"
    and "files (pv_world (process_video cfg sources video_path filename model w)) = files w"
    using \<open>sources video_path = None\<close> by (simp_all add: VideoCapture_def py_print_def)
next
  assume a: "sources video_path \<noteq> None \<and>
    pv_raised (process_video cfg sources video_path filename model w) = None"
  then obtain v where v: "sources video_path = Some v" by auto
  from a have r: "pv_raised (process_video cfg sources video_path filename model w) = None" by simp
  from process_video_opened [where sources = sources and video_path = video_path, OF v,
         of cfg filename model w] r
  show "\<not> cap_isOpened (pv_cap (process_video cfg sources video_path filename model w))"
    and "\<exists>out. pv_out (process_video cfg sources video_path filename model w) = Some out \<and>
         \<not> vw_isOpened out"
    by auto
qed

theorem handles_released_on_return_witness:
  "(ex_sources ''input/bad.mp4'' = None \<and>
    pv_raised (process_video ex_cfg ex_sources ''input/bad.mp4'' ''bad.mp4'' ex_detector ex_world) = None \<and>
    \<not> cap_isOpened (pv_cap (process_video ex_cfg ex_sources ''input/bad.mp4'' ''bad.mp4'' ex_detector ex_world)) \<and>
    pv_out (process_video ex_cfg ex_sources ''input/bad.mp4'' ''bad.mp4'' ex_detector ex_world) = None \<and>
    files (pv_world (process_video ex_cfg ex_sources ''input/bad.mp4'' ''bad.mp4'' ex_detector ex_world)) =
      files ex_world) \<and>
   ((ex_sources ''input/clip.mp4'' \<noteq> None \<and>
     pv_raised (process_video ex_cfg ex_sources ''input/clip.mp4'' ''clip.mp4'' ex_detector ex_world) = None) \<and>
    \<not> cap_isOpened (pv_cap (process_video ex_cfg ex_sources ''input/clip.mp4'' ''clip.mp4'' ex_detector ex_world)) \<and>
    (\<exists>out. pv_out (process_video ex_cfg ex_sources ''input/clip.mp4'' ''clip.mp4'' ex_detector ex_world) = Some out \<and>
       \<not> vw_isOpened out))"
proof -
  have b: "ex_sources ''input/bad.mp4'' = None"
    by (simp add: ex_sources_def)
  have c: "ex_sources ''input/clip.mp4'' \<noteq> None \<and>
     pv_raised (process_video ex_cfg ex_sources ''input/clip.mp4'' ''clip.mp4'' ex_detector ex_world) = None"
    by code_simp
  note bad = handles_released_on_return [where sources = ex_sources and video_path = "''input/bad.mp4''"
      and cfg = ex_cfg and filename = "''bad.mp4''" and model = ex_detector and w = ex_world,
      THEN conjunct1, THEN mp, OF b]
  note good = handles_released_on_return [where sources = ex_sources and video_path = "''input/clip.mp4''"
      and cfg = ex_cfg and filename = "''clip.mp4''" and model = ex_detector and w = ex_world,
      THEN conjunct2, THEN mp, OF c]
  from b bad c good show ?thesis
    by (intro conjI) simp_all
qed

text \<open>
  C2. When the source does not open, \<open>process_video\<close> prints the failure message with the
  video path and returns: nothing is raised, no writer is made and the files are as they
  were. The batch driver then goes on with the rest of the listing. No other failure is
  caught: an exception that leaves \<open>process_video\<close> leaves the batch driver too.
\<close>

theorem open_failure_skips_video:
  "(sources video_path = None \<longrightarrow>
      process_video cfg sources video_path filename model w =
        \<lparr>pv_raised = None,
         pv_world = w\<lparr>stdout := stdout w @ [msg_open_failed @ video_path]\<rparr>,
         pv_cap = VideoCapture sources video_path, pv_out = None\<rparr> \<and>
      \<not> cap_isOpened (VideoCapture sources video_path)) \<and>
   (endswith_any (str_lower filename) [''.mp4'', ''.avi'', ''.mov'', ''.mkv''] \<and>
    sources (path_join (cfg_input_dir cfg) filename) = None \<longrightarrow>
      main_loop str_lower cfg sources model (filename # rest) w =
        main_loop str_lower cfg sources model rest
          (w\<lparr>invoked := invoked w @ [(path_join (cfg_input_dir cfg) filename, filename)],
             stdout := stdout w @ [msg_open_failed @ path_join (cfg_input_dir cfg) filename]\<rparr>)) \<and>
   (endswith_any (str_lower filename) [''.mp4'', ''.avi'', ''.mov'', ''.mkv''] \<and>
    pv_raised (process_video cfg sources (path_join (cfg_input_dir cfg) filename) filename model
      (w\<lparr>invoked := invoked w @ [(path_join (cfg_input_dir cfg) filename, filename)]\<rparr>)) = Some e \<longrightarrow>
      fst (main_loop str_lower cfg sources model (filename # rest) w) = Some e \<and>
      fst (main str_lower cfg sources model (filename # rest) w) = Some e)"
proof (intro conjI impI)
  assume n: "sources video_path = None"
  from process_video_not_opened [where sources = sources and video_path = video_path, OF n,
         of cfg filename model w]
  show "process_video cfg sources video_path filename model w =
        \<lparr>pv_raised = None,
         pv_world = w\<lparr>stdout := stdout w @ [msg_open_failed @ video_path]\<rparr>,
         pv_cap = VideoCapture sources video_path, pv_out = None\<rparr>"
    by (simp add: py_print_def)
  from n show "\<not> cap_isOpened (VideoCapture sources video_path)"
    by (simp add: VideoCapture_def)
next
  let ?p = "path_join (cfg_input_dir cfg) filename"
  let ?w = "w\<lparr>invoked := invoked w @ [(?p, filename)]\<rparr>"
  assume a: "endswith_any (str_lower filename) [''.mp4'', ''.avi'', ''.mov'', ''.mkv''] \<and>
    sources ?p = None"
  then have n: "sources ?p = None" by simp
  note pv = process_video_not_opened [where sources = sources and video_path = ?p, OF n,
         of cfg filename model ?w]
  then have r: "pv_raised (process_video cfg sources ?p filename model ?w) = None" by simp
  from pv have "pv_world (process_video cfg sources ?p filename model ?w) =
      w\<lparr>invoked := invoked w @ [(?p, filename)], stdout := stdout w @ [msg_open_failed @ ?p]\<rparr>"
    by (simp add: py_print_def)
  with main_loop_next [where str_lower = str_lower and filename = filename, OF a [THEN conjunct1] r, of rest]
  show "main_loop str_lower cfg sources model (filename # rest) w =
        main_loop str_lower cfg sources model rest
          (w\<lparr>invoked := invoked w @ [(?p, filename)],
             stdout := stdout w @ [msg_open_failed @ ?p]\<rparr>)"
    by (simp only:)
next
  let ?p = "path_join (cfg_input_dir cfg) filename"
  let ?w = "w\<lparr>invoked := invoked w @ [(?p, filename)]\<rparr>"
  assume a: "endswith_any (str_lower filename) [''.mp4'', ''.avi'', ''.mov'', ''.mkv''] \<and>
    pv_raised (process_video cfg sources ?p filename model ?w) = Some e"
  note m = main_loop_raise [where str_lower = str_lower and filename = filename, OF a [THEN conjunct1] a [THEN conjunct2], of rest]
  show "fst (main_loop str_lower cfg sources model (filename # rest) w) = Some e"
    by (simp only: m fst_conv)
  show "fst (main str_lower cfg sources model (filename # rest) w) = Some e"
    unfolding main_def by (simp only: m) simp
qed

theorem open_failure_skips_video_witness:
  "(ex_sources ''input/bad.mp4'' = None \<and>
    process_video ex_cfg ex_sources ''input/bad.mp4'' ''bad.mp4'' ex_detector ex_world =
      \<lparr>pv_raised = None,
       pv_world = ex_world\<lparr>stdout := stdout ex_world @ [msg_open_failed @ ''input/bad.mp4'']\<rparr>,
       pv_cap = VideoCapture ex_sources ''input/bad.mp4'', pv_out = None\<rparr> \<and>
    \<not> cap_isOpened (VideoCapture ex_sources ''input/bad.mp4'')) \<and>
   ((endswith_any (ascii_lower ''bad.mp4'') [''.mp4'', ''.avi'', ''.mov'', ''.mkv''] \<and>
     ex_sources (path_join (cfg_input_dir ex_cfg) ''bad.mp4'') = None) \<and>
    main_loop ascii_lower ex_cfg ex_sources ex_detector [''bad.mp4'', ''good.avi''] ex_world =
      main_loop ascii_lower ex_cfg ex_sources ex_detector [''good.avi'']
        (ex_world\<lparr>invoked := invoked ex_world @
                     [(path_join (cfg_input_dir ex_cfg) ''bad.mp4'', ''bad.mp4'')],
                   stdout := stdout ex_world @
                     [msg_open_failed @ path_join (cfg_input_dir ex_cfg) ''bad.mp4'']\<rparr>)) \<and>
   ((endswith_any (ascii_lower ''clip.avi'') [''.mp4'', ''.avi'', ''.mov'', ''.mkv''] \<and>
     pv_raised (process_video ex_cfg ex_sources (path_join (cfg_input_dir ex_cfg) ''clip.avi'')
       ''clip.avi'' ex_detector_unmapped
       (ex_world\<lparr>invoked := invoked ex_world @
          [(path_join (cfg_input_dir ex_cfg) ''clip.avi'', ''clip.avi'')]\<rparr>)) = Some (KeyError 7)) \<and>
    fst (main_loop ascii_lower ex_cfg ex_sources ex_detector_unmapped [''clip.avi'', ''clip.mp4''] ex_world) =
      Some (KeyError 7) \<and>
    fst (main ascii_lower ex_cfg ex_sources ex_detector_unmapped [''clip.avi'', ''clip.mp4''] ex_world) =
      Some (KeyError 7)) \<and>
   (case main ascii_lower ex_cfg ex_sources ex_detector [''bad.mp4'', ''good.avi''] ex_world of
      (raised, w) \<Rightarrow>
        raised = None \<and> files w ''output/bad_processed.mp4'' = None \<and>
        map_option (length \<circ> of_frames) (files w ''output/good_processed.mp4'') = Some 3)"
proof -
  have b: "ex_sources ''input/bad.mp4'' = None"
    by (simp add: ex_sources_def)
  have c: "endswith_any (ascii_lower ''bad.mp4'') [''.mp4'', ''.avi'', ''.mov'', ''.mkv''] \<and>
     ex_sources (path_join (cfg_input_dir ex_cfg) ''bad.mp4'') = None"
    by code_simp
  have d: "endswith_any (ascii_lower ''clip.avi'') [''.mp4'', ''.avi'', ''.mov'', ''.mkv''] \<and>
     pv_raised (process_video ex_cfg ex_sources (path_join (cfg_input_dir ex_cfg) ''clip.avi'')
       ''clip.avi'' ex_detector_unmapped
       (ex_world\<lparr>invoked := invoked ex_world @
          [(path_join (cfg_input_dir ex_cfg) ''clip.avi'', ''clip.avi'')]\<rparr>)) = Some (KeyError 7)"
    by code_simp
  note one = open_failure_skips_video [where str_lower = ascii_lower and sources = ex_sources and video_path = "''input/bad.mp4''"
      and cfg = ex_cfg and filename = "''bad.mp4''" and model = ex_detector and w = ex_world,
      THEN conjunct1, THEN mp, OF b]
  note two = open_failure_skips_video [where str_lower = ascii_lower and sources = ex_sources
      and cfg = ex_cfg and filename = "''bad.mp4''" and model = ex_detector and w = ex_world
      and rest = "[''good.avi'']",
      THEN conjunct2, THEN conjunct1, THEN mp, OF c]
  note three = open_failure_skips_video [where str_lower = ascii_lower and sources = ex_sources
      and cfg = ex_cfg and filename = "''clip.avi''" and model = ex_detector_unmapped and w = ex_world
      and rest = "[''clip.mp4'']" and e = "KeyError 7",
      THEN conjunct2, THEN conjunct2, THEN mp, OF d]
  have s: "case main ascii_lower ex_cfg ex_sources ex_detector [''bad.mp4'', ''good.avi''] ex_world of
      (raised, w) \<Rightarrow>
        raised = None \<and> files w ''output/bad_processed.mp4'' = None \<and>
        map_option (length \<circ> of_frames) (files w ''output/good_processed.mp4'') = Some 3"
    by code_simp
  from b one c two d three s show ?thesis
    by blast
qed

text \<open>
  C6, as amended. The calls of \<open>process_video\<close> that the batch driver makes are calls on
  the names of the listing whose lowering by \<^verbatim>\<open>str.lower\<close> ends in one of the four
  extensions, each with the input directory joined in front, in listing order and one call
  for each place in the listing; no other name is passed. When no call raises, every such
  name has its call. A call that raises ends the batch, and the names after it have none.
  This holds whatever \<^verbatim>\<open>str.lower\<close> does to the characters outside ASCII (it lowers the
  Kelvin sign to \<^verbatim>\<open>k\<close>, so that a name ending in \<^verbatim>\<open>.m\<close>, the Kelvin sign and \<^verbatim>\<open>v\<close> has its
  call). For a name that \<^verbatim>\<open>str.lower\<close> lowers as it lowers ASCII, which every name of ASCII
  characters is, the test is that the name ends in an extension written in letters of
  either case.
\<close>

theorem videos_invoked_in_listing_order:
  assumes "main str_lower cfg sources model listing w = (raised, w')"
  shows "(raised = None \<longrightarrow>
            invoked w' = invoked w @
              map (\<lambda>filename. (path_join (cfg_input_dir cfg) filename, filename))
                (filter (\<lambda>filename. endswith_any (str_lower filename)
                           [''.mp4'', ''.avi'', ''.mov'', ''.mkv'']) listing)) \<and>
         (\<exists>n. invoked w' = invoked w @
              map (\<lambda>filename. (path_join (cfg_input_dir cfg) filename, filename))
                (take n (filter (\<lambda>filename. endswith_any (str_lower filename)
                           [''.mp4'', ''.avi'', ''.mov'', ''.mkv'']) listing))) \<and>
         (\<forall>filename. str_lower filename = ascii_lower filename \<longrightarrow>
            endswith_any (str_lower filename) [''.mp4'', ''.avi'', ''.mov'', ''.mkv''] =
              (\<exists>stem ext. filename = stem @ ext \<and>
                 ascii_lower ext \<in> {''.mp4'', ''.avi'', ''.mov'', ''.mkv''})) \<and>
         (listing = before @ filename # rest \<and>
          endswith_any (str_lower filename) [''.mp4'', ''.avi'', ''.mov'', ''.mkv''] \<and>
          main_loop str_lower cfg sources model before w = (None, w1) \<and>
          pv_raised (process_video cfg sources (path_join (cfg_input_dir cfg) filename) filename model
            (w1\<lparr>invoked := invoked w1 @ [(path_join (cfg_input_dir cfg) filename, filename)]\<rparr>)) =
            Some e \<longrightarrow>
            raised = Some e \<and>
            invoked w' = invoked w1 @ [(path_join (cfg_input_dir cfg) filename, filename)])"
proof -
  have ends: "listing = before @ filename # rest \<and>
          endswith_any (str_lower filename) [''.mp4'', ''.avi'', ''.mov'', ''.mkv''] \<and>
          main_loop str_lower cfg sources model before w = (None, w1) \<and>
          pv_raised (process_video cfg sources (path_join (cfg_input_dir cfg) filename) filename model
            (w1\<lparr>invoked := invoked w1 @ [(path_join (cfg_input_dir cfg) filename, filename)]\<rparr>)) =
            Some e \<longrightarrow>
            raised = Some e \<and>
            invoked w' = invoked w1 @ [(path_join (cfg_input_dir cfg) filename, filename)]"
  proof
    assume a: "listing = before @ filename # rest \<and>
          endswith_any (str_lower filename) [''.mp4'', ''.avi'', ''.mov'', ''.mkv''] \<and>
          main_loop str_lower cfg sources model before w = (None, w1) \<and>
          pv_raised (process_video cfg sources (path_join (cfg_input_dir cfg) filename) filename model
            (w1\<lparr>invoked := invoked w1 @ [(path_join (cfg_input_dir cfg) filename, filename)]\<rparr>)) =
            Some e"
    from main_raises_at [where str_lower = str_lower and filename = filename, OF a [THEN conjunct2, THEN conjunct1]
        a [THEN conjunct2, THEN conjunct2, THEN conjunct1]
        a [THEN conjunct2, THEN conjunct2, THEN conjunct2], of rest] a [THEN conjunct1] assms
    show "raised = Some e \<and>
            invoked w' = invoked w1 @ [(path_join (cfg_input_dir cfg) filename, filename)]"
      by (auto simp: process_video_invoked)
  qed
  from main_invoked [OF assms] obtain n where
    n: "invoked w' = invoked w @
            map (\<lambda>filename. (path_join (cfg_input_dir cfg) filename, filename))
              (take n (filter (\<lambda>filename. endswith_any (str_lower filename)
                                  [''.mp4'', ''.avi'', ''.mov'', ''.mkv'']) listing))"
       "raised = None \<longrightarrow>
            n = length (filter (\<lambda>filename. endswith_any (str_lower filename)
                                  [''.mp4'', ''.avi'', ''.mov'', ''.mkv'']) listing)"
    by blast
  from n have "raised = None \<longrightarrow>
            invoked w' = invoked w @
              map (\<lambda>filename. (path_join (cfg_input_dir cfg) filename, filename))
                (filter (\<lambda>filename. endswith_any (str_lower filename)
                           [''.mp4'', ''.avi'', ''.mov'', ''.mkv'']) listing)"
    by simp
  moreover from n(1) have "\<exists>n. invoked w' = invoked w @
              map (\<lambda>filename. (path_join (cfg_input_dir cfg) filename, filename))
                (take n (filter (\<lambda>filename. endswith_any (str_lower filename)
                           [''.mp4'', ''.avi'', ''.mov'', ''.mkv'']) listing))"
    by blast
  moreover have "\<forall>filename. str_lower filename = ascii_lower filename \<longrightarrow>
            endswith_any (str_lower filename) [''.mp4'', ''.avi'', ''.mov'', ''.mkv''] =
              (\<exists>stem ext. filename = stem @ ext \<and>
                 ascii_lower ext \<in> {''.mp4'', ''.avi'', ''.mov'', ''.mkv''})"
    by (simp add: allowed_extension_iff)
  ultimately show ?thesis
    using ends by blast
qed

theorem videos_invoked_in_listing_order_witness:
  "main ascii_lower ex_cfg ex_sources ex_detector [''clip.mp4'', ''notes.txt'', ''GOOD.Avi''] ex_world =
     (None,
      snd (main ascii_lower ex_cfg ex_sources ex_detector [''clip.mp4'', ''notes.txt'', ''GOOD.Avi'']
             ex_world)) \<and>
   invoked (snd (main ascii_lower ex_cfg ex_sources ex_detector
     [''clip.mp4'', ''notes.txt'', ''GOOD.Avi''] ex_world)) =
     [(''input/clip.mp4'', ''clip.mp4''), (''input/GOOD.Avi'', ''GOOD.Avi'')] \<and>
   ascii_lower ''GOOD.Avi'' = ascii_lower ''GOOD.Avi'' \<and>
   endswith_any (ascii_lower ''GOOD.Avi'') [''.mp4'', ''.avi'', ''.mov'', ''.mkv''] \<and>
   (\<exists>stem ext. ''GOOD.Avi'' = stem @ ext \<and>
      ascii_lower ext \<in> {''.mp4'', ''.avi'', ''.mov'', ''.mkv''})"
proof -
  let ?l = "[''clip.mp4'', ''notes.txt'', ''GOOD.Avi'']"
  have f: "fst (main ascii_lower ex_cfg ex_sources ex_detector ?l ex_world) = None"
    by code_simp
  then have h: "main ascii_lower ex_cfg ex_sources ex_detector ?l ex_world =
     (None, snd (main ascii_lower ex_cfg ex_sources ex_detector ?l ex_world))"
    by (simp add: prod_eq_iff)
  have r: "invoked ex_world @
      map (\<lambda>filename. (path_join (cfg_input_dir ex_cfg) filename, filename))
        (filter (\<lambda>filename. endswith_any (ascii_lower filename) [''.mp4'', ''.avi'', ''.mov'', ''.mkv''])
           ?l) = [(''input/clip.mp4'', ''clip.mp4''), (''input/GOOD.Avi'', ''GOOD.Avi'')]"
    by code_simp
  have e: "endswith_any (ascii_lower ''GOOD.Avi'') [''.mp4'', ''.avi'', ''.mov'', ''.mkv'']"
    by code_simp
  note inst = videos_invoked_in_listing_order [OF h]
  from inst [THEN conjunct1, THEN mp, OF refl]
  have i: "invoked (snd (main ascii_lower ex_cfg ex_sources ex_detector ?l ex_world)) =
     [(''input/clip.mp4'', ''clip.mp4''), (''input/GOOD.Avi'', ''GOOD.Avi'')]"
    by (simp only: r)
  from inst [THEN conjunct2, THEN conjunct2, THEN conjunct1, THEN spec, THEN mp, OF refl] e
  have c: "\<exists>stem ext. ''GOOD.Avi'' = stem @ ext \<and>
      ascii_lower ext \<in> {''.mp4'', ''.avi'', ''.mov'', ''.mkv''}"
    by (simp only:)
  from h i e c show ?thesis by blast
qed

text \<open>
  C6 as it stands fails on a listing of two names that both end in an allowed
  extension: the call on the first raises, and the second has no call.
\<close>

theorem videos_invoked_counterexample:
  "endswith_any (ascii_lower ''clip.avi'') [''.mp4'', ''.avi'', ''.mov'', ''.mkv''] \<and>
   endswith_any (ascii_lower ''clip.mp4'') [''.mp4'', ''.avi'', ''.mov'', ''.mkv''] \<and>
   fst (main ascii_lower ex_cfg ex_sources ex_detector_unmapped [''clip.avi'', ''clip.mp4''] ex_world) =
     Some (KeyError 7) \<and>
   invoked (snd (main ascii_lower ex_cfg ex_sources ex_detector_unmapped [''clip.avi'', ''clip.mp4''] ex_world)) =
     [(''input/clip.avi'', ''clip.avi'')] \<and>
   (''input/clip.mp4'', ''clip.mp4'') \<notin>
     set (invoked (snd (main ascii_lower ex_cfg ex_sources ex_detector_unmapped [''clip.avi'', ''clip.mp4'']
       ex_world)))"
  by code_simp

lemma process_video_unmapped:
  assumes "sources video_path = Some v"
    and "frame \<in> set (vf_frames v)"
    and "(bx, conf, cls_id) \<in> set (detections (model frame))"
    and "cfg_classes cfg (py_int cls_id) = None"
  shows "\<exists>k. cfg_classes cfg k = None \<and>
           pv_raised (process_video cfg sources video_path filename model w) = Some (KeyError k)"
proof -
  let ?rs = "map (annotate_frame (cfg_classes cfg) model) (vf_frames v)"
  let ?E = "case dropWhile (\<lambda>r. fst r = None) ?rs of [] \<Rightarrow> None | r # _ \<Rightarrow> fst r"
  from draw_detections_unmapped [where classes = "cfg_classes cfg" and cls_id = cls_id
         and dets = "detections (model frame)" and frame = frame, OF assms(3,4)]
  have "fst (annotate_frame (cfg_classes cfg) model frame) \<noteq> None"
    by (simp add: annotate_frame_detections)
  with assms(2) have "\<not> (\<forall>r\<in>set ?rs. fst r = None)" by auto
  then have "?E \<noteq> None" by (simp only: first_raise_None not_False_eq_True)
  then obtain e where e: "?E = Some e" by blast
  from first_raise_Some [OF e] obtain frame' where
    "frame' \<in> set (vf_frames v)" "fst (annotate_frame (cfg_classes cfg) model frame') = Some e"
    by auto
  then have "fst (draw_detections (cfg_classes cfg) frame' (detections (model frame'))) = Some e"
    by (simp add: annotate_frame_detections)
  from draw_detections_raises [OF this] obtain k where "cfg_classes cfg k = None" "e = KeyError k"
    by blast
  with e process_video_opened [where sources = sources and video_path = video_path, OF assms(1),
         of cfg filename model w]
  show ?thesis by auto
qed

text \<open>
  C8. The lookup of a class id that the label table does not hold raises \<^verbatim>\<open>KeyError\<close>.
  When the detector returns such a class id on a frame of a video that opened,
  \<open>process_video\<close> leaves with a \<^verbatim>\<open>KeyError\<close> of a class id missing from the table (that one,
  or an earlier missing one). Nothing catches it: the batch driver, having come to this
  file, leaves with the same exception, the names after it in the listing get no call,
  and the closing message is not printed.
\<close>

theorem unmapped_class_id_aborts_batch:
  assumes "sources video_path = Some v"
    and "frame \<in> set (vf_frames v)"
    and "(bx, conf, cls_id) \<in> set (detections (model frame))"
    and "cfg_classes cfg (py_int cls_id) = None"
  shows "dict_lookup (cfg_classes cfg) (py_int cls_id) = Inl (KeyError (py_int cls_id)) \<and>
         (\<exists>k. cfg_classes cfg k = None \<and>
            pv_raised (process_video cfg sources video_path filename model w) = Some (KeyError k)) \<and>
         (video_path = path_join (cfg_input_dir cfg) filename \<and>
          endswith_any (str_lower filename) [''.mp4'', ''.avi'', ''.mov'', ''.mkv''] \<and>
          main_loop str_lower cfg sources model before w0 = (None, w1) \<longrightarrow>
            (\<exists>k. cfg_classes cfg k = None \<and>
               main str_lower cfg sources model (before @ filename # rest) w0 =
                 (Some (KeyError k),
                  pv_world (process_video cfg sources video_path filename model
                    (w1\<lparr>invoked := invoked w1 @ [(video_path, filename)]\<rparr>))) \<and>
               invoked (pv_world (process_video cfg sources video_path filename model
                    (w1\<lparr>invoked := invoked w1 @ [(video_path, filename)]\<rparr>))) =
                 invoked w1 @ [(video_path, filename)]))"
proof (intro conjI impI)
  from assms(4) show "dict_lookup (cfg_classes cfg) (py_int cls_id) = Inl (KeyError (py_int cls_id))"
    by (simp add: dict_lookup_def)
next
  from process_video_unmapped [where sources = sources and video_path = video_path
         and model = model and frame = frame and cfg = cfg and cls_id = cls_id, OF assms]
  show "\<exists>k. cfg_classes cfg k = None \<and>
            pv_raised (process_video cfg sources video_path filename model w) = Some (KeyError k)" .
next
  let ?w = "w1\<lparr>invoked := invoked w1 @ [(video_path, filename)]\<rparr>"
  let ?r = "process_video cfg sources video_path filename model ?w"
  assume a: "video_path = path_join (cfg_input_dir cfg) filename \<and>
          endswith_any (str_lower filename) [''.mp4'', ''.avi'', ''.mov'', ''.mkv''] \<and>
          main_loop str_lower cfg sources model before w0 = (None, w1)"
  from process_video_unmapped [where sources = sources and video_path = video_path
         and model = model and frame = frame and cfg = cfg and cls_id = cls_id
         and filename = filename and w = ?w, OF assms] obtain k where
    k: "cfg_classes cfg k = None" "pv_raised ?r = Some (KeyError k)"
    by blast
  from a have ext: "endswith_any (str_lower filename) [''.mp4'', ''.avi'', ''.mov'', ''.mkv'']"
    and p: "path_join (cfg_input_dir cfg) filename = video_path"
    and b: "main_loop str_lower cfg sources model before w0 = (None, w1)"
    by simp_all
  from k(2) have "pv_raised (process_video cfg sources (path_join (cfg_input_dir cfg) filename)
      filename model
      (w1\<lparr>invoked := invoked w1 @ [(path_join (cfg_input_dir cfg) filename, filename)]\<rparr>)) =
      Some (KeyError k)"
    by (simp only: p)
  from main_loop_raise [where str_lower = str_lower and filename = filename, OF ext this, of rest]
  have "main_loop str_lower cfg sources model (filename # rest) w1 = (Some (KeyError k), pv_world ?r)"
    by (simp only: p)
  with b have "main_loop str_lower cfg sources model (before @ filename # rest) w0 =
      (Some (KeyError k), pv_world ?r)"
    by (simp only: main_loop_append) simp
  then have "main str_lower cfg sources model (before @ filename # rest) w0 = (Some (KeyError k), pv_world ?r)"
    unfolding main_def by (simp only:) simp
  with k(1) show "\<exists>k. cfg_classes cfg k = None \<and>
               main str_lower cfg sources model (before @ filename # rest) w0 =
                 (Some (KeyError k), pv_world ?r) \<and>
               invoked (pv_world ?r) = invoked w1 @ [(video_path, filename)]"
    by (auto simp: process_video_invoked)
qed

theorem unmapped_class_id_aborts_batch_witness:
  "(ex_sources ''input/clip.avi'' = Some ex_short \<and>
    ex_frame 7 \<in> set (vf_frames ex_short) \<and>
    ((Finite 1, Finite 2, Finite 3, Finite 4), Finite (1 / 2), Finite 7)
       \<in> set (detections (ex_detector_unmapped (ex_frame 7))) \<and>
    cfg_classes ex_cfg (py_int (Finite 7)) = None) \<and>
   dict_lookup (cfg_classes ex_cfg) (py_int (Finite 7)) = Inl (KeyError (py_int (Finite 7))) \<and>
   (\<exists>k. cfg_classes ex_cfg k = None \<and>
      pv_raised (process_video ex_cfg ex_sources ''input/clip.avi'' ''clip.avi''
        ex_detector_unmapped ex_world) = Some (KeyError k)) \<and>
   (''input/clip.avi'' = path_join (cfg_input_dir ex_cfg) ''clip.avi'' \<and>
    endswith_any (ascii_lower ''clip.avi'') [''.mp4'', ''.avi'', ''.mov'', ''.mkv''] \<and>
    main_loop ascii_lower ex_cfg ex_sources ex_detector_unmapped [] ex_world = (None, ex_world)) \<and>
   (\<exists>k. cfg_classes ex_cfg k = None \<and>
      main ascii_lower ex_cfg ex_sources ex_detector_unmapped ([] @ ''clip.avi'' # [''clip.mp4'']) ex_world =
        (Some (KeyError k),
         pv_world (process_video ex_cfg ex_sources ''input/clip.avi'' ''clip.avi'' ex_detector_unmapped
           (ex_world\<lparr>invoked := invoked ex_world @ [(''input/clip.avi'', ''clip.avi'')]\<rparr>))) \<and>
      invoked (pv_world (process_video ex_cfg ex_sources ''input/clip.avi'' ''clip.avi''
           ex_detector_unmapped
           (ex_world\<lparr>invoked := invoked ex_world @ [(''input/clip.avi'', ''clip.avi'')]\<rparr>))) =
        invoked ex_world @ [(''input/clip.avi'', ''clip.avi'')])"
proof -
  have h1: "ex_sources ''input/clip.avi'' = Some ex_short"
    by (simp add: ex_sources_def)
  have h2: "ex_frame 7 \<in> set (vf_frames ex_short)"
    by (simp add: ex_short_def)
  have h3: "((Finite 1, Finite 2, Finite 3, Finite 4), Finite (1 / 2), Finite 7)
       \<in> set (detections (ex_detector_unmapped (ex_frame 7)))"
    by (simp add: detections_def ex_detector_unmapped_def ex_boxes_def)
  have h4: "cfg_classes ex_cfg (py_int (Finite 7)) = None"
    by (simp add: ex_cfg_def ex_classes_def py_int_def)
  have "''input/clip.avi'' = path_join (cfg_input_dir ex_cfg) ''clip.avi'' \<and>
    endswith_any (ascii_lower ''clip.avi'') [''.mp4'', ''.avi'', ''.mov'', ''.mkv'']"
    by code_simp
  then have h5: "''input/clip.avi'' = path_join (cfg_input_dir ex_cfg) ''clip.avi'' \<and>
    endswith_any (ascii_lower ''clip.avi'') [''.mp4'', ''.avi'', ''.mov'', ''.mkv''] \<and>
    main_loop ascii_lower ex_cfg ex_sources ex_detector_unmapped [] ex_world = (None, ex_world)"
    by simp
  note inst = unmapped_class_id_aborts_batch [where str_lower = ascii_lower and sources = ex_sources
      and video_path = "''input/clip.avi''" and model = ex_detector_unmapped
      and frame = "ex_frame 7" and cls_id = "Finite 7" and cfg = ex_cfg
      and filename = "''clip.avi''" and w = ex_world and before = "[]" and ?w0.0 = ex_world
      and ?w1.0 = ex_world and rest = "[''clip.mp4'']", OF h1 h2 h3 h4]
  from h1 h2 h3 h4 h5 inst [THEN conjunct1] inst [THEN conjunct2, THEN conjunct1]
    inst [THEN conjunct2, THEN conjunct2, THEN mp, OF h5]
  show ?thesis by blast
qed








end
